theory Spec2Isabelle
  imports Complex_Main "HOL-Library.Multiset"
begin

section \<open>Errors\<close>

text \<open>
  A path is the tuple \<open>pickle_path.parts\<close> of its components.  Every exception the
  script can raise is a value:
  \<^item> \<open>ShapeAssertion m\<close>: \<open>assert x.shape[1] == k, m\<close> failed;
  \<^item> \<open>MismatchAssertion p d\<close>: the assertion of \<open>process_pickle_file\<close> failed, with the
    message \<open>Mismatch in {p}, lengths differ by {d}\<close>;
  \<^item> \<open>IndexError\<close>: \<open>x.shape[1]\<close> on an array with a single axis;
  \<^item> \<open>ValueError m\<close>: raised by numpy (ragged input, concatenation) and by \<open>tuple.index\<close>;
  \<^item> \<open>OutputExists p\<close>: the \<open>ValueError\<close> raised by the script when the output path exists;
  \<^item> \<open>UnpickleError\<close>: whatever \<open>unpickle_data\<close> raises on an unreadable file;
  \<^item> \<open>KeyError n\<close>, \<open>WriteError n\<close>: a write to a channel that was never created, and a
    write the storage backend refuses.
\<close>

type_synonym path = "string list"

datatype error =
    ShapeAssertion string
  | MismatchAssertion path int
  | IndexError
  | ValueError string
  | OutputExists path
  | UnpickleError
  | KeyError string
  | WriteError string

text \<open>
  Sequencing: \<open>and_then m f\<close> runs \<open>f\<close> on the value of \<open>m\<close>; an exception raised by \<open>m\<close>
  propagates.
\<close>

definition and_then :: "error + 'a \<Rightarrow> ('a \<Rightarrow> error + 'b) \<Rightarrow> error + 'b" where
  "and_then m f = (case m of Inl e \<Rightarrow> Inl e | Inr x \<Rightarrow> f x)"

section \<open>Arrays\<close>

text \<open>
  A numpy array is the list of its items along axis 0 together with the remaining
  dimensions: its \<open>shape\<close> is \<open>len(a)\<close> followed by \<open>dims\<close>.  A two-dimensional array has
  rows as items and \<open>dims = [width]\<close>; a one-dimensional array has \<open>dims = []\<close>.
\<close>

record 'r ndarray =
  items :: "'r list"
  dims :: "nat list"

definition shape :: "'r ndarray \<Rightarrow> nat list" where
  "shape a = length (items a) # dims a"

definition len :: "'r ndarray \<Rightarrow> nat" where
  "len a = length (items a)"

text \<open>\<open>a.shape[1]\<close>: the tuple index is out of range when the array has one axis.\<close>

definition shape1 :: "'r ndarray \<Rightarrow> error + nat" where
  "shape1 a = (case dims a of [] \<Rightarrow> Inl IndexError | w # ds \<Rightarrow> Inr w)"

text \<open>
  \<open>np.array(xs, dtype=...)\<close> on a list whose elements have the shapes \<open>shp x\<close>: the empty
  list gives shape \<open>(0,)\<close>, elements of one shape are stacked, anything else is refused.
  Every element is converted to the dtype: \<open>astype\<close> is that conversion.
\<close>

definition np_array ::
  "('x \<Rightarrow> 'y) \<Rightarrow> ('x \<Rightarrow> nat list) \<Rightarrow> 'x list \<Rightarrow> error + 'y ndarray" where
  "np_array astype shp xs =
     (case xs of
        [] \<Rightarrow> Inr \<lparr>items = [], dims = []\<rparr>
      | x # ys \<Rightarrow>
          if list_all (\<lambda>y. shp y = shp x) ys then Inr \<lparr>items = map astype xs, dims = shp x\<rparr>
          else Inl (ValueError ''inhomogeneous shape''))"

definition row_shape :: "'a list \<Rightarrow> nat list" where
  "row_shape r = [length r]"

definition scalar_shape :: "'a \<Rightarrow> nat list" where
  "scalar_shape x = []"

text \<open>\<open>a[:-1]\<close> and \<open>a[1:]\<close>: slices along axis 0 (both empty on an empty array).\<close>

definition drop_last :: "'r ndarray \<Rightarrow> 'r ndarray" where
  "drop_last a = a\<lparr>items := butlast (items a)\<rparr>"

definition drop_first :: "'r ndarray \<Rightarrow> 'r ndarray" where
  "drop_first a = a\<lparr>items := tl (items a)\<rparr>"

text \<open>
  \<open>a[:, i:j]\<close> and \<open>a[:, i:]\<close> on an array with at least two axes (the callers have
  asserted \<open>a.shape[1]\<close> before they slice).
\<close>

definition slice_cols :: "nat \<Rightarrow> nat \<Rightarrow> 'a list ndarray \<Rightarrow> 'a list ndarray" where
  "slice_cols i j a =
     \<lparr>items = map (\<lambda>r. take (j - i) (drop i r)) (items a),
      dims = (case dims a of [] \<Rightarrow> [] | w # ds \<Rightarrow> (min j w - min i w) # ds)\<rparr>"

definition slice_cols_from :: "nat \<Rightarrow> 'a list ndarray \<Rightarrow> 'a list ndarray" where
  "slice_cols_from i a =
     \<lparr>items = map (drop i) (items a),
      dims = (case dims a of [] \<Rightarrow> [] | w # ds \<Rightarrow> (w - min i w) # ds)\<rparr>"

text \<open>
  \<open>np.concatenate(arrays, axis=1)\<close>: every array needs a second axis, and all of them the
  same number of rows and the same dimensions after the second.
\<close>

fun np_concatenate_axis1 :: "'a list ndarray list \<Rightarrow> error + 'a list ndarray" where
  "np_concatenate_axis1 [] = Inl (ValueError ''need at least one array to concatenate'')"
| "np_concatenate_axis1 [a] =
     (if dims a = [] then Inl (ValueError ''axis 1 is out of bounds'') else Inr a)"
| "np_concatenate_axis1 (a # b # bs) =
     (case np_concatenate_axis1 (b # bs) of
        Inl e \<Rightarrow> Inl e
      | Inr r \<Rightarrow>
          if dims a \<noteq> [] \<and> length (items a) = length (items r) \<and> tl (dims a) = tl (dims r)
          then Inr \<lparr>items = map2 (@) (items a) (items r),
                    dims = (hd (dims a) + hd (dims r)) # tl (dims a)\<rparr>
          else Inl (ValueError ''all the input array dimensions must match''))"

text \<open>
  \<open>np.concatenate(arrays)\<close> along axis 0: at least one array, all with the same
  dimensions after the first.
\<close>

definition np_concatenate :: "'r ndarray list \<Rightarrow> error + 'r ndarray" where
  "np_concatenate as =
     (case as of
        [] \<Rightarrow> Inl (ValueError ''need at least one array to concatenate'')
      | a # bs \<Rightarrow>
          if list_all (\<lambda>b. dims b = dims a) bs
          then Inr \<lparr>items = concat (map items as), dims = dims a\<rparr>
          else Inl (ValueError ''all the input array dimensions must match''))"

section \<open>Kinematic transform\<close>

text \<open>
  Modelled from the spec: \<open>np_isaac_quat_to_rot_6d\<close> is defined in
  \<open>src/common/geometry.py\<close>, which is not part of the sources at hand.  The spec (4.1)
  gives it as a per-row map from a 4-wide quaternion to a 6-wide rotation, applied to
  each row of a batch independently; the per-row map \<open>rot6d\<close> is a parameter.
\<close>

definition np_isaac_quat_to_rot_6d :: "('a list \<Rightarrow> 'a list) \<Rightarrow> 'a list ndarray \<Rightarrow> 'a list ndarray" where
  "np_isaac_quat_to_rot_6d rot6d quat = \<lparr>items = map rot6d (items quat), dims = [6]\<rparr>"

text \<open>
  Modelled from the spec: one instance of the per-row map, the first two columns of the
  rotation matrix of a quaternion \<open>(x, y, z, w)\<close>, without normalisation (spec 4.1).
  It serves as the concrete instance of the parameter in the examples.
\<close>

fun quat_to_rot_6d :: "int list \<Rightarrow> int list" where
  "quat_to_rot_6d [x, y, z, w] =
     [1 - 2 * (y * y + z * z), 2 * (x * y + z * w), 2 * (x * z - y * w),
      2 * (x * y - z * w), 1 - 2 * (x * x + z * z), 2 * (y * z + x * w)]"
| "quat_to_rot_6d q = []"

definition action_to_6d_rotation :: "('a list \<Rightarrow> 'a list) \<Rightarrow> 'a list ndarray \<Rightarrow> error + 'a list ndarray" where
  "action_to_6d_rotation rot6d action =
     and_then (shape1 action) (\<lambda>w.
          if w \<noteq> 8 then Inl (ShapeAssertion ''Action must be 8D'')
          else
            let delta_pos = slice_cols 0 3 action;
                delta_quat = slice_cols 3 7 action;
                delta_gripper = slice_cols_from 7 action;
                delta_rot = np_isaac_quat_to_rot_6d rot6d delta_quat
            in np_concatenate_axis1 [delta_pos, delta_rot, delta_gripper])"

definition proprioceptive_to_6d_rotation :: "('a list \<Rightarrow> 'a list) \<Rightarrow> 'a list ndarray \<Rightarrow> error + 'a list ndarray" where
  "proprioceptive_to_6d_rotation rot6d robot_state =
     and_then (shape1 robot_state) (\<lambda>w.
          if w \<noteq> 14 then Inl (ShapeAssertion ''Robot state must be 14D'')
          else
            let pos = slice_cols 0 3 robot_state;
                ori_quat = slice_cols 3 7 robot_state;
                pos_vel = slice_cols 7 10 robot_state;
                ori_vel = slice_cols 10 13 robot_state;
                gripper = slice_cols_from 13 robot_state;
                ori_6d = np_isaac_quat_to_rot_6d rot6d ori_quat
            in np_concatenate_axis1 [pos, ori_6d, pos_vel, ori_vel, gripper])"

definition extract_ee_pose_6d :: "'a list ndarray \<Rightarrow> error + 'a list ndarray" where
  "extract_ee_pose_6d robot_state =
     and_then (shape1 robot_state) (\<lambda>w.
          if w \<noteq> 16 then Inl (ShapeAssertion ''Robot state must be 16D'')
          else
            let pos = slice_cols 0 3 robot_state;
                ori_6d = slice_cols 3 9 robot_state
            in np_concatenate_axis1 [pos, ori_6d])"

section \<open>Episode decoder\<close>

text \<open>
  An image is an array of its own: its shape and its integer entries.  An observation
  carries the two images and the raw robot state, which \<open>filter_and_concat_robot_state\<close>
  (of the \<open>furniture_bench\<close> package, a parameter here) turns into one vector.
\<close>

record frame =
  fshape :: "nat list"
  fdata :: "int list"

text \<open>
  The conversions of \<open>np.array(..., dtype=...)\<close>.  To \<open>np.uint8\<close> an integer entry wraps
  modulo 256 and the shape stays.  To \<open>np.float32\<close> a number is rounded to single
  precision: the rounding \<open>float32\<close> is a parameter of the decoder.
\<close>

definition astype_uint8 :: "frame \<Rightarrow> frame" where
  "astype_uint8 f = f\<lparr>fdata := map (\<lambda>v. v mod 256) (fdata f)\<rparr>"

record 'rs observation =
  obs_color_image1 :: frame
  obs_color_image2 :: frame
  obs_robot_state :: 'rs

record ('rs, 'a) trajectory =
  observations :: "'rs observation list"
  actions :: "'a list list"
  rewards :: "'a list"
  skills :: "'a list"
  furniture :: string
  success :: bool

record 'a processed_data =
  pd_robot_state :: "'a list ndarray"
  pd_color_image1 :: "frame ndarray"
  pd_color_image2 :: "frame ndarray"
  pd_action_delta :: "'a list ndarray"
  pd_action_pos :: "'a list ndarray"
  pd_reward :: "'a ndarray"
  pd_skill :: "'a ndarray"
  pd_episode_length :: nat
  pd_furniture :: string
  pd_success :: bool
  pd_pickle_file :: string

text \<open>\<open>parts.index(x)\<close>: the first position of \<open>x\<close>, or a \<open>ValueError\<close>.\<close>

fun tuple_index :: "'a \<Rightarrow> 'a list \<Rightarrow> error + nat" where
  "tuple_index x [] = Inl (ValueError ''tuple.index(x): x not in tuple'')"
| "tuple_index x (y # ys) =
     (if y = x then Inr 0
      else case tuple_index x ys of Inl e \<Rightarrow> Inl e | Inr i \<Rightarrow> Inr (Suc i))"

text \<open>\<open>sep.join(xs)\<close>.\<close>

fun join :: "string \<Rightarrow> string list \<Rightarrow> string" where
  "join sep [] = []"
| "join sep [x] = x"
| "join sep (x # y # ys) = x @ sep @ join sep (y # ys)"

definition process_pickle_file ::
  "(path \<Rightarrow> error + ('rs, 'a) trajectory) \<Rightarrow> ('rs \<Rightarrow> 'a list) \<Rightarrow> ('a \<Rightarrow> 'a) \<Rightarrow>
   ('a list \<Rightarrow> 'a list) \<Rightarrow> path \<Rightarrow> 'n \<Rightarrow> error + 'a processed_data" where
  "process_pickle_file unpickle_data filter_and_concat_robot_state float32 rot6d pickle_path
       noop_threshold =
     and_then (unpickle_data pickle_path) (\<lambda>data.
     let obs = observations data in
     and_then (np_array astype_uint8 fshape (map obs_color_image1 obs)) (\<lambda>c1.
     let color_image1 = drop_last c1 in
     and_then (np_array astype_uint8 fshape (map obs_color_image2 obs)) (\<lambda>c2.
     let color_image2 = drop_last c2 in
     and_then (np_array (map float32) row_shape
             (map (\<lambda>ob. filter_and_concat_robot_state (obs_robot_state ob)) obs)) (\<lambda>raw_state.
     and_then (proprioceptive_to_6d_rotation rot6d raw_state) (\<lambda>all_robot_state.
     let robot_state = drop_last all_robot_state in
     and_then (np_array (map float32) row_shape (actions data)) (\<lambda>raw_action.
     and_then (action_to_6d_rotation rot6d raw_action) (\<lambda>action_delta.
     and_then (extract_ee_pose_6d (drop_first all_robot_state)) (\<lambda>action_pos.
     and_then (np_array float32 scalar_shape (rewards data)) (\<lambda>reward.
     and_then (np_array float32 scalar_shape (skills data)) (\<lambda>skill.
     if len robot_state \<noteq> len action_delta
     then Inl (MismatchAssertion pickle_path (int (len robot_state) - int (len action_delta)))
     else
     and_then (tuple_index ''raw'' pickle_path) (\<lambda>i.
     let pickle_file = join ''/'' (drop (i + 1) pickle_path) in
     Inr \<lparr>pd_robot_state = robot_state,
          pd_color_image1 = color_image1,
          pd_color_image2 = color_image2,
          pd_action_delta = action_delta,
          pd_action_pos = action_pos,
          pd_reward = reward,
          pd_skill = skill,
          pd_episode_length = len action_delta,
          pd_furniture = furniture data,
          pd_success = success data,
          pd_pickle_file = pickle_file\<rparr>)))))))))))"

section \<open>Parallel aggregator\<close>

text \<open>
  The accumulator \<open>aggregated_data\<close> while the loop runs: one list per key (of arrays for
  the per-timestep channels).
\<close>

record 'a accumulator =
  acc_robot_state :: "'a list ndarray list"
  acc_color_image1 :: "frame ndarray list"
  acc_color_image2 :: "frame ndarray list"
  acc_action_delta :: "'a list ndarray list"
  acc_action_pos :: "'a list ndarray list"
  acc_reward :: "'a ndarray list"
  acc_skill :: "'a ndarray list"
  acc_episode_ends :: "nat list"
  acc_furniture :: "string list"
  acc_success :: "bool list"
  acc_pickle_file :: "string list"

text \<open>The same dictionary after the per-timestep lists have been concatenated.\<close>

record 'a aggregated_data =
  agg_robot_state :: "'a list ndarray"
  agg_color_image1 :: "frame ndarray"
  agg_color_image2 :: "frame ndarray"
  agg_action_delta :: "'a list ndarray"
  agg_action_pos :: "'a list ndarray"
  agg_reward :: "'a ndarray"
  agg_skill :: "'a ndarray"
  agg_episode_ends :: "nat list"
  agg_furniture :: "string list"
  agg_success :: "bool list"
  agg_pickle_file :: "string list"

definition empty_accumulator :: "'a accumulator" where
  "empty_accumulator =
     \<lparr>acc_robot_state = [], acc_color_image1 = [], acc_color_image2 = [],
      acc_action_delta = [], acc_action_pos = [], acc_reward = [], acc_skill = [],
      acc_episode_ends = [], acc_furniture = [], acc_success = [], acc_pickle_file = []\<rparr>"

text \<open>The body of the loop for one completed episode: the loop over the keys of \<open>data\<close>.\<close>

definition aggregate_keys :: "'a accumulator \<Rightarrow> 'a processed_data \<Rightarrow> 'a accumulator" where
  "aggregate_keys aggregated data =
     (let last_end = (if length (acc_episode_ends aggregated) > 0
                      then last (acc_episode_ends aggregated) else 0)
      in \<lparr>acc_robot_state = acc_robot_state aggregated @ [pd_robot_state data],
          acc_color_image1 = acc_color_image1 aggregated @ [pd_color_image1 data],
          acc_color_image2 = acc_color_image2 aggregated @ [pd_color_image2 data],
          acc_action_delta = acc_action_delta aggregated @ [pd_action_delta data],
          acc_action_pos = acc_action_pos aggregated @ [pd_action_pos data],
          acc_reward = acc_reward aggregated @ [pd_reward data],
          acc_skill = acc_skill aggregated @ [pd_skill data],
          acc_episode_ends = acc_episode_ends aggregated @ [last_end + pd_episode_length data],
          acc_furniture = acc_furniture aggregated @ [pd_furniture data],
          acc_success = acc_success aggregated @ [pd_success data],
          acc_pickle_file = acc_pickle_file aggregated @ [pd_pickle_file data]\<rparr>)"

text \<open>
  The loop over the completed futures: \<open>future.result()\<close> re-raises the exception of a
  failed task, which ends the loop.
\<close>

fun aggregate_loop :: "'a accumulator \<Rightarrow> (error + 'a processed_data) list \<Rightarrow> error + 'a accumulator" where
  "aggregate_loop aggregated [] = Inr aggregated"
| "aggregate_loop aggregated (future # futures) =
     (case future of
        Inl e \<Rightarrow> Inl e
      | Inr data \<Rightarrow> aggregate_loop (aggregate_keys aggregated data) futures)"

definition concatenate_channels :: "'a accumulator \<Rightarrow> error + 'a aggregated_data" where
  "concatenate_channels aggregated =
     and_then (np_concatenate (acc_robot_state aggregated)) (\<lambda>robot_state.
     and_then (np_concatenate (acc_color_image1 aggregated)) (\<lambda>color_image1.
     and_then (np_concatenate (acc_color_image2 aggregated)) (\<lambda>color_image2.
     and_then (np_concatenate (acc_action_delta aggregated)) (\<lambda>action_delta.
     and_then (np_concatenate (acc_action_pos aggregated)) (\<lambda>action_pos.
     and_then (np_concatenate (acc_reward aggregated)) (\<lambda>reward.
     and_then (np_concatenate (acc_skill aggregated)) (\<lambda>skill.
     Inr \<lparr>agg_robot_state = robot_state,
          agg_color_image1 = color_image1,
          agg_color_image2 = color_image2,
          agg_action_delta = action_delta,
          agg_action_pos = action_pos,
          agg_reward = reward,
          agg_skill = skill,
          agg_episode_ends = acc_episode_ends aggregated,
          agg_furniture = acc_furniture aggregated,
          agg_success = acc_success aggregated,
          agg_pickle_file = acc_pickle_file aggregated\<rparr>)))))))"

text \<open>
  One task per path; \<open>as_completed\<close> hands the futures back in the order in which the
  tasks finish, which the scheduler decides: a parameter, some rearrangement of the
  futures.  \<open>process\<close> is \<open>process_pickle_file\<close> with its collaborators supplied.
\<close>

definition parallel_process_pickle_files ::
  "((error + 'a processed_data) list \<Rightarrow> (error + 'a processed_data) list) \<Rightarrow>
   (path \<Rightarrow> 'n \<Rightarrow> error + 'a processed_data) \<Rightarrow>
   path list \<Rightarrow> 'n \<Rightarrow> nat \<Rightarrow> error + 'a aggregated_data" where
  "parallel_process_pickle_files as_completed process pickle_paths noop_threshold num_threads =
     (let futures = map (\<lambda>path. process path noop_threshold) pickle_paths in
      and_then (aggregate_loop empty_accumulator (as_completed futures)) concatenate_channels)"

text \<open>
  The episode boundaries as the spec (3) words them: the exclusive end offsets of
  consecutive episodes of the given lengths, the first one starting at offset \<open>s\<close>.
\<close>

fun end_offsets :: "nat \<Rightarrow> nat list \<Rightarrow> nat list" where
  "end_offsets s [] = []"
| "end_offsets s (n # ns) = (s + n) # end_offsets (s + n) ns"

section \<open>Chunked store\<close>

text \<open>
  The zarr group at the output path: its attributes and its datasets, both in insertion
  order.  A dataset is created with its shape, dtype, chunk shape and compressor, and
  holds no data until it is written.  \<open>DefaultCompressor\<close> stands for a
  \<open>create_dataset\<close> call without a \<open>compressor\<close> argument.
\<close>

datatype dtype = Float32 | UInt8 | UInt32 | Str

datatype shuffle = NOSHUFFLE | SHUFFLE | BITSHUFFLE

datatype compressor = DefaultCompressor | Blosc string nat shuffle

datatype attr_value = AttrStr string | AttrFloat real | AttrInt int

datatype 'a channel_data =
    Rows "'a list ndarray"
  | Scalars "'a ndarray"
  | Frames "frame ndarray"
  | Ints "nat list"
  | Strs "string list"
  | Flags "bool list"

record 'a dataset =
  ds_shape :: "nat list"
  ds_dtype :: dtype
  ds_chunks :: "nat list"
  ds_compressor :: compressor
  ds_data :: "'a channel_data option"

record 'a store =
  attrs :: "(string \<times> attr_value) list"
  arrays :: "(string \<times> 'a dataset) list"

text \<open>\<open>d[k] = v\<close> on a dictionary kept in insertion order.\<close>

fun dict_set :: "'k \<Rightarrow> 'v \<Rightarrow> ('k \<times> 'v) list \<Rightarrow> ('k \<times> 'v) list" where
  "dict_set k v [] = [(k, v)]"
| "dict_set k v ((k', v') # kvs) =
     (if k' = k then (k, v) # kvs else (k', v') # dict_set k v kvs)"

text \<open>\<open>sub in s\<close> on strings.\<close>

fun str_contains :: "string \<Rightarrow> string \<Rightarrow> bool" where
  "str_contains sub [] = (sub = [])"
| "str_contains sub (c # cs) = (take (length sub) (c # cs) = sub \<or> str_contains sub cs)"

definition create_dataset ::
  "'a store \<Rightarrow> string \<Rightarrow> nat list \<Rightarrow> dtype \<Rightarrow> nat list \<Rightarrow> compressor \<Rightarrow> 'a store" where
  "create_dataset z name shp dt chunks cmpr =
     z\<lparr>arrays := dict_set name
          \<lparr>ds_shape = shp, ds_dtype = dt, ds_chunks = chunks, ds_compressor = cmpr,
           ds_data = None\<rparr> (arrays z)\<rparr>"

fun create_datasets :: "'a store \<Rightarrow> nat \<Rightarrow> (string \<times> nat list \<times> dtype) list \<Rightarrow> 'a store" where
  "create_datasets z chunksize [] = z"
| "create_datasets z chunksize ((name, shp, dt) # rest) =
     (let compressor = Blosc ''zstd'' 9 BITSHUFFLE in
      if str_contains ''color_image'' name
      then create_datasets (create_dataset z name shp dt (chunksize # tl shp) compressor)
             chunksize rest
      else create_datasets (create_dataset z name shp dt (chunksize # tl shp) DefaultCompressor)
             chunksize rest)"

text \<open>
  \<open>zarr.open(out_path, mode="w")\<close> creates an empty group in place of whatever the path
  held; \<open>now\<close> is the reading of the clock.
\<close>

definition initialize_zarr_store ::
  "string \<Rightarrow> path \<Rightarrow> (string \<times> nat list \<times> dtype) list \<Rightarrow> nat \<Rightarrow> 'a store" where
  "initialize_zarr_store now out_path full_data_shapes chunksize =
     (let z = \<lparr>attrs = [], arrays = []\<rparr>;
          z = z\<lparr>attrs := dict_set ''time_created'' (AttrStr now) (attrs z)\<rparr>
      in create_datasets z chunksize full_data_shapes)"

fun data_shape :: "'a channel_data \<Rightarrow> nat list" where
  "data_shape (Rows a) = shape a"
| "data_shape (Scalars a) = shape a"
| "data_shape (Frames a) = shape a"
| "data_shape (Ints xs) = [length xs]"
| "data_shape (Strs xs) = [length xs]"
| "data_shape (Flags xs) = [length xs]"

text \<open>
  \<open>z[key][:] = value\<close>: the dataset has to exist and to have the shape of the value, and
  the storage backend has to accept the write (\<open>storage_ok key\<close>, a parameter).
\<close>

definition write_to_zarr_store ::
  "(string \<Rightarrow> bool) \<Rightarrow> 'a store \<Rightarrow> string \<Rightarrow> 'a channel_data \<Rightarrow> error + 'a store" where
  "write_to_zarr_store storage_ok z key val =
     (case map_of (arrays z) key of
        None \<Rightarrow> Inl (KeyError key)
      | Some ds \<Rightarrow>
          if data_shape val \<noteq> ds_shape ds then Inl (ValueError ''shape mismatch'')
          else if \<not> storage_ok key then Inl (WriteError key)
          else Inr (z\<lparr>arrays := dict_set key (ds\<lparr>ds_data := Some val\<rparr>) (arrays z)\<rparr>))"

section \<open>The script\<close>

text \<open>\<open>all_data\<close> as the dictionary it is: its items in insertion order.\<close>

definition all_data_items :: "'a aggregated_data \<Rightarrow> (string \<times> 'a channel_data) list" where
  "all_data_items all_data =
     [(''robot_state'', Rows (agg_robot_state all_data)),
      (''color_image1'', Frames (agg_color_image1 all_data)),
      (''color_image2'', Frames (agg_color_image2 all_data)),
      (''action/delta'', Rows (agg_action_delta all_data)),
      (''action/pos'', Rows (agg_action_pos all_data)),
      (''reward'', Scalars (agg_reward all_data)),
      (''skill'', Scalars (agg_skill all_data)),
      (''episode_ends'', Ints (agg_episode_ends all_data)),
      (''furniture'', Strs (agg_furniture all_data)),
      (''success'', Flags (agg_success all_data)),
      (''pickle_file'', Strs (agg_pickle_file all_data))]"

definition full_data_shapes :: "'a aggregated_data \<Rightarrow> (string \<times> nat list \<times> dtype) list" where
  "full_data_shapes all_data =
     [(''robot_state'', shape (agg_robot_state all_data), Float32),
      (''color_image1'', shape (agg_color_image1 all_data), UInt8),
      (''color_image2'', shape (agg_color_image2 all_data), UInt8),
      (''action/delta'', shape (agg_action_delta all_data), Float32),
      (''action/pos'', shape (agg_action_pos all_data), Float32),
      (''skill'', shape (agg_skill all_data), Float32),
      (''reward'', shape (agg_reward all_data), Float32),
      (''episode_ends'', [length (agg_episode_ends all_data)], UInt32),
      (''furniture'', [length (agg_furniture all_data)], Str),
      (''success'', [length (agg_success all_data)], UInt8),
      (''pickle_file'', [length (agg_pickle_file all_data)], Str)]"

text \<open>The loop that writes the channels; the first write that raises ends it.\<close>

fun write_loop ::
  "(string \<Rightarrow> bool) \<Rightarrow> 'a store \<Rightarrow> (string \<times> 'a channel_data) list \<Rightarrow> error option \<times> 'a store" where
  "write_loop storage_ok z [] = (None, z)"
| "write_loop storage_ok z ((name, val) # rest) =
     (case write_to_zarr_store storage_ok z name val of
        Inl e \<Rightarrow> (Some e, z)
      | Inr z' \<Rightarrow> write_loop storage_ok z' rest)"

definition finish_metadata :: "string \<Rightarrow> real \<Rightarrow> nat \<Rightarrow> 'a store \<Rightarrow> 'a store" where
  "finish_metadata now noop_threshold chunksize z =
     (let z = z\<lparr>attrs := dict_set ''time_finished'' (AttrStr now) (attrs z)\<rparr>;
          z = z\<lparr>attrs := dict_set ''noop_threshold'' (AttrFloat noop_threshold) (attrs z)\<rparr>;
          z = z\<lparr>attrs := dict_set ''chunksize'' (AttrInt (int chunksize)) (attrs z)\<rparr>
      in z)"

text \<open>
  The script from the check of the output path on.  \<open>pickle_paths\<close> and \<open>output_path\<close> are
  what \<open>get_raw_paths\<close> and \<open>get_processed_path\<close> returned; \<open>disk\<close> is what the output path
  holds (\<open>None\<close> when it does not exist); \<open>time_created\<close> and \<open>time_finished\<close> are the two
  readings of the clock.  The result is the exception that ended the run, if any, and what
  the output path holds afterwards.
\<close>

definition main ::
  "(path \<Rightarrow> error + ('rs, 'a) trajectory) \<Rightarrow> ('rs \<Rightarrow> 'a list) \<Rightarrow> ('a \<Rightarrow> 'a) \<Rightarrow>
   ('a list \<Rightarrow> 'a list) \<Rightarrow>
   ((error + 'a processed_data) list \<Rightarrow> (error + 'a processed_data) list) \<Rightarrow>
   string \<Rightarrow> string \<Rightarrow> (string \<Rightarrow> bool) \<Rightarrow> nat \<Rightarrow>
   path list \<Rightarrow> path \<Rightarrow> bool \<Rightarrow> 'a store option \<Rightarrow> error option \<times> 'a store option" where
  "main unpickle_data filter_and_concat_robot_state float32 rot6d as_completed
        time_created time_finished storage_ok n_cpus pickle_paths output_path overwrite disk =
     (if disk \<noteq> None \<and> \<not> overwrite then (Some (OutputExists output_path), disk)
      else
        let chunksize = 1000;
            noop_threshold = 0
        in case parallel_process_pickle_files as_completed
                  (process_pickle_file unpickle_data filter_and_concat_robot_state float32 rot6d)
                  pickle_paths noop_threshold n_cpus of
             Inl e \<Rightarrow> (Some e, disk)
           | Inr all_data \<Rightarrow>
               let z = initialize_zarr_store time_created output_path
                         (full_data_shapes all_data) chunksize
               in case write_loop storage_ok z (all_data_items all_data) of
                    (Some e, z') \<Rightarrow> (Some e, Some z')
                  | (None, z') \<Rightarrow>
                      (None, Some (finish_metadata time_finished noop_threshold chunksize z')))"

section \<open>Example episodes\<close>

text \<open>
  A small episode for the concrete evaluations below: three observations with 1x1 images
  and the state \<open>(1, 2, 3)\<close> with the identity quaternion, two actions, two skills, and the
  rewards given as the argument.  The robot state is stored as its vector, so
  \<open>filter_and_concat_robot_state\<close> is the identity on it.
\<close>

definition example_frame :: frame where
  "example_frame = \<lparr>fshape = [1, 1, 3], fdata = [0, 0, 0]\<rparr>"

definition example_observation :: "int list observation" where
  "example_observation =
     \<lparr>obs_color_image1 = example_frame, obs_color_image2 = example_frame,
      obs_robot_state = [1, 2, 3, 0, 0, 0, 1, 4, 5, 6, 7, 8, 9, 10]\<rparr>"

definition example_episode :: "int list \<Rightarrow> (int list, int) trajectory" where
  "example_episode rs =
     \<lparr>observations = [example_observation, example_observation, example_observation],
      actions = [[0, 0, 0, 0, 0, 0, 1, 1], [0, 0, 0, 0, 0, 0, 1, -1]],
      rewards = rs,
      skills = [0, 0],
      furniture = ''lamp'',
      success = True\<rparr>"

definition example_path :: path where
  "example_path = [''/'', ''data'', ''raw'', ''sim'', ''lamp'', ''0.pkl'']"

section \<open>Properties of the kinematic transform\<close>

lemma map2_same: "map2 f (map g xs) (map h xs) = map (\<lambda>x. f (g x) (h x)) xs"
  by (induction xs) auto

lemma action_to_6d_rotation_rows:
  "dims action = [8] \<Longrightarrow>
   action_to_6d_rotation rot6d action =
     Inr \<lparr>items = map (\<lambda>r. take 3 r @ rot6d (take 4 (drop 3 r)) @ drop 7 r) (items action),
          dims = [10]\<rparr>"
  by (simp add: action_to_6d_rotation_def and_then_def shape1_def slice_cols_def
      slice_cols_from_def np_isaac_quat_to_rot_6d_def map2_same Let_def)

lemma proprioceptive_to_6d_rotation_rows:
  "dims robot_state = [14] \<Longrightarrow>
   proprioceptive_to_6d_rotation rot6d robot_state =
     Inr \<lparr>items = map (\<lambda>r. take 3 r @ rot6d (take 4 (drop 3 r)) @ take 3 (drop 7 r)
                           @ take 3 (drop 10 r) @ drop 13 r) (items robot_state),
          dims = [16]\<rparr>"
  by (simp add: proprioceptive_to_6d_rotation_def and_then_def shape1_def slice_cols_def
      slice_cols_from_def np_isaac_quat_to_rot_6d_def map2_same Let_def)

lemma extract_ee_pose_6d_rows:
  "dims robot_state = [16] \<Longrightarrow>
   extract_ee_pose_6d robot_state =
     Inr \<lparr>items = map (\<lambda>r. take 3 r @ take 6 (drop 3 r)) (items robot_state), dims = [9]\<rparr>"
  by (simp add: extract_ee_pose_6d_def and_then_def shape1_def slice_cols_def map2_same Let_def)

lemma shape_assertion_action:
  "dims a = w # ds \<Longrightarrow> w \<noteq> 8 \<Longrightarrow> action_to_6d_rotation rot6d a = Inl (ShapeAssertion ''Action must be 8D'')"
  by (simp add: action_to_6d_rotation_def and_then_def shape1_def)


lemma shape_assertion_pose:
  "dims a = w # ds \<Longrightarrow> w \<noteq> 16 \<Longrightarrow>
   extract_ee_pose_6d a = Inl (ShapeAssertion ''Robot state must be 16D'')"
  by (simp add: extract_ee_pose_6d_def and_then_def shape1_def)

text \<open>
  Claim C7.  On a batch of 8-wide action rows, \<open>action_to_6d_rotation\<close> returns 10-wide
  rows: the first three entries and the last one are the position and the gripper entry
  of the input row, unchanged, and the six entries between them are the 6D expansion of
  the quaternion slice (entries 3 to 6) of the input row.  On an input whose row width is
  not 8 it fails with the shape assertion.
\<close>

theorem action_to_6d_rotation_expands:
  "(dims action = [8] \<and> (\<forall>r\<in>set (items action). length r = 8) \<and>
    (\<forall>q. length q = 4 \<longrightarrow> length (rot6d q) = 6) \<longrightarrow>
    (\<exists>res. action_to_6d_rotation rot6d action = Inr res \<and>
       shape res = [len action, 10] \<and>
       (\<forall>i<len action.
          length (items res ! i) = 10 \<and>
          take 3 (items res ! i) = take 3 (items action ! i) \<and>
          take 6 (drop 3 (items res ! i)) = rot6d (take 4 (drop 3 (items action ! i))) \<and>
          drop 9 (items res ! i) = drop 7 (items action ! i)))) \<and>
   (dims bad = w # ds \<and> w \<noteq> 8 \<longrightarrow>
      action_to_6d_rotation rot6d bad = Inl (ShapeAssertion ''Action must be 8D''))"
proof (intro conjI impI)
  assume h: "dims action = [8] \<and> (\<forall>r\<in>set (items action). length r = 8) \<and>
    (\<forall>q. length q = 4 \<longrightarrow> length (rot6d q) = 6)"
  let ?row = "\<lambda>r. take 3 r @ rot6d (take 4 (drop 3 r)) @ drop 7 r"
  let ?res = "\<lparr>items = map ?row (items action), dims = [10]\<rparr>"
  have res: "action_to_6d_rotation rot6d action = Inr ?res"
    using h by (simp add: action_to_6d_rotation_rows)
  have rows: "length (?row r) = 10 \<and> take 3 (?row r) = take 3 r \<and>
      take 6 (drop 3 (?row r)) = rot6d (take 4 (drop 3 r)) \<and> drop 9 (?row r) = drop 7 r"
    if "r \<in> set (items action)" for r
  proof -
    have "length r = 8" using h that by simp
    moreover have "length (rot6d (take 4 (drop 3 r))) = 6" using h \<open>length r = 8\<close> by simp
    ultimately show ?thesis by simp
  qed
  have "\<forall>i<len action. length (items ?res ! i) = 10 \<and>
          take 3 (items ?res ! i) = take 3 (items action ! i) \<and>
          take 6 (drop 3 (items ?res ! i)) = rot6d (take 4 (drop 3 (items action ! i))) \<and>
          drop 9 (items ?res ! i) = drop 7 (items action ! i)"
    using rows by (simp add: len_def)
  moreover have "shape ?res = [len action, 10]" by (simp add: shape_def len_def)
  ultimately show "\<exists>res. action_to_6d_rotation rot6d action = Inr res \<and>
       shape res = [len action, 10] \<and>
       (\<forall>i<len action.
          length (items res ! i) = 10 \<and>
          take 3 (items res ! i) = take 3 (items action ! i) \<and>
          take 6 (drop 3 (items res ! i)) = rot6d (take 4 (drop 3 (items action ! i))) \<and>
          drop 9 (items res ! i) = drop 7 (items action ! i))"
    using res by blast
next
  assume "dims bad = w # ds \<and> w \<noteq> 8"
  then show "action_to_6d_rotation rot6d bad = Inl (ShapeAssertion ''Action must be 8D'')"
    by (simp add: shape_assertion_action)
qed

theorem action_to_6d_rotation_expands_witness:
  "action_to_6d_rotation quat_to_rot_6d \<lparr>items = [[1, 2, 3, 0, 0, 0, 1, 5]], dims = [8]\<rparr>
     = Inr \<lparr>items = [[1, 2, 3, 1, 0, 0, 0, 1, 0, 5]], dims = [10]\<rparr> \<and>
   action_to_6d_rotation quat_to_rot_6d \<lparr>items = [[1, 2, 3]], dims = [3]\<rparr>
     = Inl (ShapeAssertion ''Action must be 8D'')"
proof -
  have q: "\<forall>q. length q = 4 \<longrightarrow> length (quat_to_rot_6d q) = 6"
  proof (intro allI impI)
    fix q :: "int list" assume "length q = 4"
    then obtain x y z w where "q = [x, y, z, w]"
      by (auto simp: length_Suc_conv numeral_eq_Suc)
    then show "length (quat_to_rot_6d q) = 6" by simp
  qed
  have val: "action_to_6d_rotation quat_to_rot_6d \<lparr>items = [[1, 2, 3, 0, 0, 0, 1, 5]], dims = [8]\<rparr>
     = Inr \<lparr>items = [[1, 2, 3, 1, 0, 0, 0, 1, 0, 5]], dims = [10]\<rparr>"
    by (simp add: action_to_6d_rotation_rows)
  show ?thesis
    using action_to_6d_rotation_expands [of "\<lparr>items = [[1, 2, 3, 0, 0, 0, 1, 5 :: int]], dims = [8]\<rparr>"
        quat_to_rot_6d "\<lparr>items = [[1, 2, 3 :: int]], dims = [3]\<rparr>" 3 "[]"] q val
    by simp
qed

lemma state_row_length:
  "length r = 14 \<Longrightarrow> length e = 6 \<Longrightarrow>
   length (take 3 r @ e @ take 3 (drop 7 r) @ take 3 (drop 10 r) @ drop 13 r) = 16"
  by simp

lemma pose_row:
  "length r = 14 \<Longrightarrow> length e = 6 \<Longrightarrow>
   take 3 (take 3 r @ e @ rest) @ take 6 (drop 3 (take 3 r @ e @ rest)) = take 3 r @ e"
  by simp

lemma pose_row_parts:
  "length r = 14 \<Longrightarrow> length e = 6 \<Longrightarrow>
   length (take 3 r @ e) = 9 \<and> take 3 (take 3 r @ e) = take 3 r \<and> drop 3 (take 3 r @ e) = e"
  by simp

lemma pose_of_expanded:
  assumes "dims robot_state = [14]" and "\<forall>s\<in>set (items robot_state). length s = 14"
    and "\<forall>q. length q = 4 \<longrightarrow> length (rot6d q) = 6"
  shows "proprioceptive_to_6d_rotation rot6d robot_state =
           Inr \<lparr>items = map (\<lambda>r. take 3 r @ rot6d (take 4 (drop 3 r)) @ take 3 (drop 7 r)
                           @ take 3 (drop 10 r) @ drop 13 r) (items robot_state), dims = [16]\<rparr>"
    and "extract_ee_pose_6d
           \<lparr>items = map (\<lambda>r. take 3 r @ rot6d (take 4 (drop 3 r)) @ take 3 (drop 7 r)
                           @ take 3 (drop 10 r) @ drop 13 r) (items robot_state), dims = [16]\<rparr> =
           Inr \<lparr>items = map (\<lambda>r. take 3 r @ rot6d (take 4 (drop 3 r))) (items robot_state),
                dims = [9]\<rparr>"
proof -
  show "proprioceptive_to_6d_rotation rot6d robot_state =
           Inr \<lparr>items = map (\<lambda>r. take 3 r @ rot6d (take 4 (drop 3 r)) @ take 3 (drop 7 r)
                           @ take 3 (drop 10 r) @ drop 13 r) (items robot_state), dims = [16]\<rparr>"
    using assms(1) by (rule proprioceptive_to_6d_rotation_rows)
  have e: "length (rot6d (take 4 (drop 3 r))) = 6" if "r \<in> set (items robot_state)" for r
    using assms(2,3) that by simp
  have "map (\<lambda>r. take 3 r @ take 6 (drop 3 r))
          (map (\<lambda>r. take 3 r @ rot6d (take 4 (drop 3 r)) @ take 3 (drop 7 r)
                           @ take 3 (drop 10 r) @ drop 13 r) (items robot_state))
        = map (\<lambda>r. take 3 r @ rot6d (take 4 (drop 3 r))) (items robot_state)"
    unfolding map_map comp_def
  proof (rule map_cong [OF refl])
    fix r assume r: "r \<in> set (items robot_state)"
    then have "length r = 14" using assms(2) by simp
    then show "take 3 (take 3 r @ rot6d (take 4 (drop 3 r)) @ take 3 (drop 7 r)
                  @ take 3 (drop 10 r) @ drop 13 r) @
               take 6 (drop 3 (take 3 r @ rot6d (take 4 (drop 3 r)) @ take 3 (drop 7 r)
                  @ take 3 (drop 10 r) @ drop 13 r)) = take 3 r @ rot6d (take 4 (drop 3 r))"
      using e [OF r] by (rule pose_row)
  qed
  then show "extract_ee_pose_6d
           \<lparr>items = map (\<lambda>r. take 3 r @ rot6d (take 4 (drop 3 r)) @ take 3 (drop 7 r)
                           @ take 3 (drop 10 r) @ drop 13 r) (items robot_state), dims = [16]\<rparr> =
           Inr \<lparr>items = map (\<lambda>r. take 3 r @ rot6d (take 4 (drop 3 r))) (items robot_state),
                dims = [9]\<rparr>"
    by (simp add: extract_ee_pose_6d_rows)
qed


lemma quat_to_rot_6d_length: "length q = 4 \<Longrightarrow> length (quat_to_rot_6d q) = 6"
proof -
  assume "length q = 4"
  then obtain x y z w where "q = [x, y, z, w]"
    by (auto simp: length_Suc_conv numeral_eq_Suc)
  then show ?thesis by simp
qed

text \<open>
  Claim C6.  On a batch of 14-wide state rows, \<open>extract_ee_pose_6d\<close> applied to the
  16-wide result of \<open>proprioceptive_to_6d_rotation\<close> gives 9-wide rows: the first three
  entries are the position (entries 0 to 2) of the state row and the other six are the 6D
  expansion of its quaternion slice (entries 3 to 6), the block the expanded state was
  built from.  On an input whose row width is not 16, \<open>extract_ee_pose_6d\<close> fails with
  the shape assertion.
\<close>

theorem extract_ee_pose_6d_of_expanded_state:
  "(dims robot_state = [14] \<and> (\<forall>s\<in>set (items robot_state). length s = 14) \<and>
    (\<forall>q. length q = 4 \<longrightarrow> length (rot6d q) = 6) \<longrightarrow>
    (\<exists>state16 pose.
       proprioceptive_to_6d_rotation rot6d robot_state = Inr state16 \<and>
       shape state16 = [len robot_state, 16] \<and>
       (\<forall>r\<in>set (items state16). length r = 16) \<and>
       extract_ee_pose_6d state16 = Inr pose \<and>
       shape pose = [len robot_state, 9] \<and>
       (\<forall>i<len robot_state.
          length (items pose ! i) = 9 \<and>
          take 3 (items pose ! i) = take 3 (items robot_state ! i) \<and>
          drop 3 (items pose ! i) = rot6d (take 4 (drop 3 (items robot_state ! i)))))) \<and>
   (dims bad = w # ds \<and> w \<noteq> 16 \<longrightarrow>
      extract_ee_pose_6d bad = Inl (ShapeAssertion ''Robot state must be 16D''))"
proof (intro conjI impI)
  assume h: "dims robot_state = [14] \<and> (\<forall>s\<in>set (items robot_state). length s = 14) \<and>
    (\<forall>q. length q = 4 \<longrightarrow> length (rot6d q) = 6)"
  define state16 where "state16 =
    \<lparr>items = map (\<lambda>r. take 3 r @ rot6d (take 4 (drop 3 r)) @ take 3 (drop 7 r)
                           @ take 3 (drop 10 r) @ drop 13 r) (items robot_state), dims = [16]\<rparr>"
  define pose where "pose =
    \<lparr>items = map (\<lambda>r. take 3 r @ rot6d (take 4 (drop 3 r))) (items robot_state), dims = [9]\<rparr>"
  have len14: "length r = 14" if "r \<in> set (items robot_state)" for r
    using h that by simp
  have len6: "length (rot6d (take 4 (drop 3 r))) = 6" if "r \<in> set (items robot_state)" for r
    using h len14 [OF that] by simp
  have 1: "proprioceptive_to_6d_rotation rot6d robot_state = Inr state16"
    unfolding state16_def using h by (intro pose_of_expanded(1)) simp_all
  have 2: "extract_ee_pose_6d state16 = Inr pose"
    unfolding state16_def pose_def using h by (intro pose_of_expanded(2)) simp_all
  have 3: "shape state16 = [len robot_state, 16]"
    by (simp add: state16_def shape_def len_def)
  have 4: "shape pose = [len robot_state, 9]"
    by (simp add: pose_def shape_def len_def)
  have 5: "\<forall>r\<in>set (items state16). length r = 16"
  proof
    fix r assume "r \<in> set (items state16)"
    then obtain r0 where r0: "r0 \<in> set (items robot_state)"
      and r: "r = take 3 r0 @ rot6d (take 4 (drop 3 r0)) @ take 3 (drop 7 r0)
                           @ take 3 (drop 10 r0) @ drop 13 r0"
      by (auto simp: state16_def)
    show "length r = 16"
      unfolding r by (rule state_row_length [OF len14 [OF r0] len6 [OF r0]])
  qed
  have 6: "\<forall>i<len robot_state.
          length (items pose ! i) = 9 \<and>
          take 3 (items pose ! i) = take 3 (items robot_state ! i) \<and>
          drop 3 (items pose ! i) = rot6d (take 4 (drop 3 (items robot_state ! i)))"
  proof (intro allI impI)
    fix i assume i: "i < len robot_state"
    then have mem: "items robot_state ! i \<in> set (items robot_state)"
      by (simp add: len_def)
    have eq: "items pose ! i =
        take 3 (items robot_state ! i) @ rot6d (take 4 (drop 3 (items robot_state ! i)))"
      using i by (simp add: pose_def len_def)
    show "length (items pose ! i) = 9 \<and>
          take 3 (items pose ! i) = take 3 (items robot_state ! i) \<and>
          drop 3 (items pose ! i) = rot6d (take 4 (drop 3 (items robot_state ! i)))"
      unfolding eq by (rule pose_row_parts [OF len14 [OF mem] len6 [OF mem]])
  qed
  show "\<exists>state16 pose.
       proprioceptive_to_6d_rotation rot6d robot_state = Inr state16 \<and>
       shape state16 = [len robot_state, 16] \<and>
       (\<forall>r\<in>set (items state16). length r = 16) \<and>
       extract_ee_pose_6d state16 = Inr pose \<and>
       shape pose = [len robot_state, 9] \<and>
       (\<forall>i<len robot_state.
          length (items pose ! i) = 9 \<and>
          take 3 (items pose ! i) = take 3 (items robot_state ! i) \<and>
          drop 3 (items pose ! i) = rot6d (take 4 (drop 3 (items robot_state ! i))))"
    using 1 2 3 4 5 6 by (intro exI [of _ state16] exI [of _ pose] conjI)
next
  assume "dims bad = w # ds \<and> w \<noteq> 16"
  then show "extract_ee_pose_6d bad = Inl (ShapeAssertion ''Robot state must be 16D'')"
    by (simp add: shape_assertion_pose)
qed

theorem extract_ee_pose_6d_of_expanded_state_witness:
  "proprioceptive_to_6d_rotation quat_to_rot_6d
     \<lparr>items = [[1, 2, 3, 0, 0, 0, 1, 4, 5, 6, 7, 8, 9, 10]], dims = [14]\<rparr>
     = Inr \<lparr>items = [[1, 2, 3, 1, 0, 0, 0, 1, 0, 4, 5, 6, 7, 8, 9, 10]], dims = [16]\<rparr> \<and>
   extract_ee_pose_6d \<lparr>items = [[1, 2, 3, 1, 0, 0, 0, 1, 0, 4, 5, 6, 7, 8, 9, 10 :: int]], dims = [16]\<rparr>
     = Inr \<lparr>items = [[1, 2, 3, 1, 0, 0, 0, 1, 0]], dims = [9]\<rparr> \<and>
   extract_ee_pose_6d \<lparr>items = [[1, 2, 3, 0, 0, 0, 1, 4, 5, 6, 7, 8, 9, 10 :: int]], dims = [14]\<rparr>
     = Inl (ShapeAssertion ''Robot state must be 16D'')"
proof -
  have v1: "proprioceptive_to_6d_rotation quat_to_rot_6d
     \<lparr>items = [[1, 2, 3, 0, 0, 0, 1, 4, 5, 6, 7, 8, 9, 10]], dims = [14]\<rparr>
     = Inr \<lparr>items = [[1, 2, 3, 1, 0, 0, 0, 1, 0, 4, 5, 6, 7, 8, 9, 10]], dims = [16]\<rparr>"
    by (simp add: proprioceptive_to_6d_rotation_rows)
  have v2: "extract_ee_pose_6d \<lparr>items = [[1, 2, 3, 1, 0, 0, 0, 1, 0, 4, 5, 6, 7, 8, 9, 10 :: int]], dims = [16]\<rparr>
     = Inr \<lparr>items = [[1, 2, 3, 1, 0, 0, 0, 1, 0]], dims = [9]\<rparr>"
    by (simp add: extract_ee_pose_6d_rows)
  have v3: "extract_ee_pose_6d \<lparr>items = [[1, 2, 3, 0, 0, 0, 1, 4, 5, 6, 7, 8, 9, 10 :: int]], dims = [14]\<rparr>
     = Inl (ShapeAssertion ''Robot state must be 16D'')"
    using extract_ee_pose_6d_of_expanded_state [of "\<lparr>items = [[1, 2, 3, 0, 0, 0, 1, 4, 5, 6, 7, 8, 9, 10 :: int]], dims = [14]\<rparr>"
        quat_to_rot_6d "\<lparr>items = [[1, 2, 3, 0, 0, 0, 1, 4, 5, 6, 7, 8, 9, 10 :: int]], dims = [14]\<rparr>" 14 "[]"]
    by simp
  show ?thesis using v1 v2 v3 by (intro conjI)
qed

section \<open>Properties of the episode decoder\<close>

lemma and_then_Inr [simp]: "and_then (Inr x) f = f x"
  by (simp add: and_then_def)

lemma and_then_Inl [simp]: "and_then (Inl e) f = Inl e"
  by (simp add: and_then_def)

lemma and_then_eq_Inr: "and_then m f = Inr y \<longleftrightarrow> (\<exists>x. m = Inr x \<and> f x = Inr y)"
  by (cases m) simp_all

lemma np_array_stack:
  "xs \<noteq> [] \<Longrightarrow> \<forall>x\<in>set xs. shp x = s \<Longrightarrow>
   np_array astype shp xs = Inr \<lparr>items = map astype xs, dims = s\<rparr>"
  by (cases xs) (auto simp: np_array_def list_all_iff)

lemma np_array_items: "np_array astype shp xs = Inr a \<Longrightarrow> items a = map astype xs"
  by (cases xs) (auto simp: np_array_def split: if_splits)

lemma np_array_scalars:
  "np_array astype scalar_shape xs = Inr \<lparr>items = map astype xs, dims = []\<rparr>"
  by (cases xs) (auto simp: np_array_def scalar_shape_def list_all_iff)

lemma np_array_rows_dims:
  "np_array astype row_shape xs = Inr a \<Longrightarrow> dims a = w # ds \<Longrightarrow>
   xs \<noteq> [] \<and> ds = [] \<and> (\<forall>r\<in>set xs. length r = w)"
  by (cases xs) (auto simp: np_array_def row_shape_def list_all_iff split: if_splits)

lemma fshape_astype_uint8: "fshape (astype_uint8 f) = fshape f"
  by (simp add: astype_uint8_def)

lemma tuple_index_found:
  "x \<in> set xs \<Longrightarrow> \<exists>i. tuple_index x xs = Inr i \<and> drop (i + 1) xs = tl (dropWhile (\<lambda>y. y \<noteq> x) xs)"
  by (induction xs) auto

lemma tuple_index_missing:
  "x \<notin> set xs \<Longrightarrow> tuple_index x xs = Inl (ValueError ''tuple.index(x): x not in tuple'')"
  by (induction xs) auto

lemma tuple_index_Inr: "tuple_index x xs = Inr i \<Longrightarrow> x \<in> set xs"
  by (induction xs arbitrary: i) (auto split: if_splits sum.splits)

lemma process_pickle_file_result:
  assumes data: "unpickle_data pickle_path = Inr data"
    and nobs: "length (observations data) = Suc N"
    and nact: "length (actions data) = N" and pos: "0 < N"
    and act8: "\<forall>a\<in>set (actions data). length a = 8"
    and st14: "\<forall>ob\<in>set (observations data). length (fcrs (obs_robot_state ob)) = 14"
    and img1: "\<forall>ob\<in>set (observations data). fshape (obs_color_image1 ob) = s1"
    and img2: "\<forall>ob\<in>set (observations data). fshape (obs_color_image2 ob) = s2"
    and raw: "''raw'' \<in> set pickle_path"
  shows "process_pickle_file unpickle_data fcrs float32 rot6d pickle_path noop_threshold =
     Inr \<lparr>pd_robot_state =
            \<lparr>items = butlast (map (\<lambda>r. take 3 r @ rot6d (take 4 (drop 3 r)) @ take 3 (drop 7 r)
                           @ take 3 (drop 10 r) @ drop 13 r)
                       (map (map float32)
                          (map (\<lambda>ob. fcrs (obs_robot_state ob)) (observations data)))),
             dims = [16]\<rparr>,
          pd_color_image1 =
            \<lparr>items = butlast (map astype_uint8 (map obs_color_image1 (observations data))),
             dims = s1\<rparr>,
          pd_color_image2 =
            \<lparr>items = butlast (map astype_uint8 (map obs_color_image2 (observations data))),
             dims = s2\<rparr>,
          pd_action_delta =
            \<lparr>items = map (\<lambda>r. take 3 r @ rot6d (take 4 (drop 3 r)) @ drop 7 r)
                       (map (map float32) (actions data)),
             dims = [10]\<rparr>,
          pd_action_pos =
            \<lparr>items = map (\<lambda>r. take 3 r @ take 6 (drop 3 r))
                       (tl (map (\<lambda>r. take 3 r @ rot6d (take 4 (drop 3 r)) @ take 3 (drop 7 r)
                           @ take 3 (drop 10 r) @ drop 13 r)
                       (map (map float32)
                          (map (\<lambda>ob. fcrs (obs_robot_state ob)) (observations data))))),
             dims = [9]\<rparr>,
          pd_reward = \<lparr>items = map float32 (rewards data), dims = []\<rparr>,
          pd_skill = \<lparr>items = map float32 (skills data), dims = []\<rparr>,
          pd_episode_length = N,
          pd_furniture = furniture data,
          pd_success = success data,
          pd_pickle_file = join ''/'' (tl (dropWhile (\<lambda>c. c \<noteq> ''raw'') pickle_path))\<rparr>"
proof -
  let ?obs = "observations data"
  let ?states = "map (\<lambda>ob. fcrs (obs_robot_state ob)) ?obs"
  have obs_ne: "?obs \<noteq> []" and act_ne: "actions data \<noteq> []"
    using nobs nact pos by auto
  have c1: "np_array astype_uint8 fshape (map obs_color_image1 ?obs)
              = Inr \<lparr>items = map astype_uint8 (map obs_color_image1 ?obs), dims = s1\<rparr>"
    using obs_ne img1 by (intro np_array_stack) auto
  have c2: "np_array astype_uint8 fshape (map obs_color_image2 ?obs)
              = Inr \<lparr>items = map astype_uint8 (map obs_color_image2 ?obs), dims = s2\<rparr>"
    using obs_ne img2 by (intro np_array_stack) auto
  have rs: "np_array (map float32) row_shape ?states
              = Inr \<lparr>items = map (map float32) ?states, dims = [14]\<rparr>"
    using obs_ne st14 by (intro np_array_stack) (auto simp: row_shape_def)
  have ra: "np_array (map float32) row_shape (actions data)
              = Inr \<lparr>items = map (map float32) (actions data), dims = [8]\<rparr>"
    using act_ne act8 by (intro np_array_stack) (auto simp: row_shape_def)
  obtain i where i: "tuple_index ''raw'' pickle_path = Inr i"
    and dr: "drop (Suc i) pickle_path = tl (dropWhile (\<lambda>c. c \<noteq> ''raw'') pickle_path)"
    using tuple_index_found [OF raw] by auto
  show ?thesis
    unfolding process_pickle_file_def
    using nobs nact
    by (simp add: data c1 c2 rs ra np_array_scalars i dr Let_def
        proprioceptive_to_6d_rotation_rows action_to_6d_rotation_rows extract_ee_pose_6d_rows
        drop_last_def drop_first_def len_def)
qed

lemma action_row_length:
  "length r = 8 \<Longrightarrow> length e = 6 \<Longrightarrow> length (take 3 r @ e @ drop 7 r) = 10"
  by simp

lemma pose_of_state_row_length:
  "length r = 14 \<Longrightarrow> length e = 6 \<Longrightarrow>
   length (take 3 (take 3 r @ e @ rest) @ take 6 (drop 3 (take 3 r @ e @ rest))) = 9"
  by simp

text \<open>
  Claim C3, as amended.  For an episode with \<open>N + 1\<close> observations and \<open>N\<close> 8-wide
  actions, where \<open>N\<close> is at least one, with 14-wide robot states and images of shape
  \<open>[H, W, 3]\<close>, read from a path with a \<open>raw\<close> component, and a quaternion expansion
  that returns six entries, decoding succeeds.  The state channel is the 16-wide
  expansion of the observation states (rounded to single precision) without its last
  row: shape \<open>[N, 16]\<close>, every row 16 wide.  The position actions are
  \<open>extract_ee_pose_6d\<close> of that expansion without its first row: shape \<open>[N, 9]\<close>, every
  row 9 wide.  The delta actions have shape \<open>[N, 10]\<close>, every row 10 wide.  Both image
  channels are the images converted to \<open>uint8\<close> without the last one: shape
  \<open>[N, H, W, 3]\<close>, every image of shape \<open>[H, W, 3]\<close>.
\<close>

theorem process_pickle_file_channels:
  assumes data: "unpickle_data pickle_path = Inr data"
    and nobs: "length (observations data) = Suc N"
    and nact: "length (actions data) = N" and pos: "0 < N"
    and act8: "\<forall>a\<in>set (actions data). length a = 8"
    and st14: "\<forall>ob\<in>set (observations data). length (fcrs (obs_robot_state ob)) = 14"
    and img: "\<forall>ob\<in>set (observations data).
                fshape (obs_color_image1 ob) = [H, W, 3] \<and> fshape (obs_color_image2 ob) = [H, W, 3]"
    and rot: "\<forall>q. length q = 4 \<longrightarrow> length (rot6d q) = 6"
    and raw: "''raw'' \<in> set pickle_path"
  shows "\<exists>d state16.
      process_pickle_file unpickle_data fcrs float32 rot6d pickle_path noop_threshold = Inr d \<and>
      proprioceptive_to_6d_rotation rot6d
        \<lparr>items = map (\<lambda>ob. map float32 (fcrs (obs_robot_state ob))) (observations data),
         dims = [14]\<rparr> = Inr state16 \<and>
      pd_robot_state d = drop_last state16 \<and>
      shape (pd_robot_state d) = [N, 16] \<and>
      (\<forall>r\<in>set (items (pd_robot_state d)). length r = 16) \<and>
      extract_ee_pose_6d (drop_first state16) = Inr (pd_action_pos d) \<and>
      shape (pd_action_pos d) = [N, 9] \<and>
      (\<forall>r\<in>set (items (pd_action_pos d)). length r = 9) \<and>
      shape (pd_action_delta d) = [N, 10] \<and>
      (\<forall>r\<in>set (items (pd_action_delta d)). length r = 10) \<and>
      items (pd_color_image1 d)
        = butlast (map (\<lambda>ob. astype_uint8 (obs_color_image1 ob)) (observations data)) \<and>
      shape (pd_color_image1 d) = [N, H, W, 3] \<and>
      (\<forall>f\<in>set (items (pd_color_image1 d)). fshape f = [H, W, 3]) \<and>
      items (pd_color_image2 d)
        = butlast (map (\<lambda>ob. astype_uint8 (obs_color_image2 ob)) (observations data)) \<and>
      shape (pd_color_image2 d) = [N, H, W, 3] \<and>
      (\<forall>f\<in>set (items (pd_color_image2 d)). fshape f = [H, W, 3])"
proof -
  let ?states = "map (map float32) (map (\<lambda>ob. fcrs (obs_robot_state ob)) (observations data))"
  let ?row = "\<lambda>r. take 3 r @ rot6d (take 4 (drop 3 r)) @ take 3 (drop 7 r)
                           @ take 3 (drop 10 r) @ drop 13 r"
  define state16 where "state16 = \<lparr>items = map ?row ?states, dims = [16]\<rparr>"
  have img1: "\<forall>ob\<in>set (observations data). fshape (obs_color_image1 ob) = [H, W, 3]"
    and img2: "\<forall>ob\<in>set (observations data). fshape (obs_color_image2 ob) = [H, W, 3]"
    using img by simp_all
  note r = process_pickle_file_result [where unpickle_data = unpickle_data
      and pickle_path = pickle_path and data = data and fcrs = fcrs and ?float32.0 = float32
      and rot6d = rot6d and noop_threshold = noop_threshold,
      OF data nobs nact pos act8 st14 img1 img2 raw]
  obtain d where res: "process_pickle_file unpickle_data fcrs float32 rot6d pickle_path
        noop_threshold = Inr d"
    and d1: "pd_robot_state d = \<lparr>items = butlast (map ?row ?states), dims = [16]\<rparr>"
    and d2: "pd_action_pos d =
         \<lparr>items = map (\<lambda>r. take 3 r @ take 6 (drop 3 r)) (tl (map ?row ?states)), dims = [9]\<rparr>"
    and d3: "pd_action_delta d =
         \<lparr>items = map (\<lambda>r. take 3 r @ rot6d (take 4 (drop 3 r)) @ drop 7 r)
                    (map (map float32) (actions data)),
          dims = [10]\<rparr>"
    and d4: "pd_color_image1 d =
         \<lparr>items = butlast (map astype_uint8 (map obs_color_image1 (observations data))),
          dims = [H, W, 3]\<rparr>"
    and d5: "pd_color_image2 d =
         \<lparr>items = butlast (map astype_uint8 (map obs_color_image2 (observations data))),
          dims = [H, W, 3]\<rparr>"
    using r by simp
  have st: "length s = 14" if "s \<in> set ?states" for s
    using that st14 by auto
  have e6: "length (rot6d (take 4 (drop 3 s))) = 6" if "length s = 14 \<or> length s = 8" for s
    using that rot by auto
  have s16: "proprioceptive_to_6d_rotation rot6d
        \<lparr>items = map (\<lambda>ob. map float32 (fcrs (obs_robot_state ob))) (observations data),
         dims = [14]\<rparr> = Inr state16"
    unfolding state16_def by (simp add: proprioceptive_to_6d_rotation_rows comp_def)
  have rs: "pd_robot_state d = drop_last state16"
    by (simp add: d1 state16_def drop_last_def)
  have ap: "extract_ee_pose_6d (drop_first state16) = Inr (pd_action_pos d)"
    unfolding d2 state16_def drop_first_def by (simp add: extract_ee_pose_6d_rows)
  have shapes: "shape (pd_robot_state d) = [N, 16]" "shape (pd_action_pos d) = [N, 9]"
    "shape (pd_action_delta d) = [N, 10]"
    "shape (pd_color_image1 d) = [N, H, W, 3]" "shape (pd_color_image2 d) = [N, H, W, 3]"
    using nobs nact by (simp_all add: d1 d2 d3 d4 d5 shape_def)
  have w16: "\<forall>r\<in>set (items (pd_robot_state d)). length r = 16"
  proof
    fix r assume "r \<in> set (items (pd_robot_state d))"
    then have "r \<in> set (map ?row ?states)"
      unfolding d1 by (auto dest: in_set_butlastD)
    then obtain s where s: "s \<in> set ?states" and r: "r = ?row s" by auto
    show "length r = 16"
      unfolding r by (rule state_row_length [OF st [OF s] e6]) (simp add: st [OF s])
  qed
  have w9: "\<forall>r\<in>set (items (pd_action_pos d)). length r = 9"
  proof
    fix r assume "r \<in> set (items (pd_action_pos d))"
    then have "r \<in> (\<lambda>r. take 3 r @ take 6 (drop 3 r)) ` set (tl (map ?row ?states))"
      by (simp only: d2 ndarray.select_convs set_map)
    then obtain x where x: "x \<in> set (tl (map ?row ?states))"
      and rx: "r = take 3 x @ take 6 (drop 3 x)" by blast
    from x have "x \<in> set (map ?row ?states)"
      by (cases "map ?row ?states") simp_all
    then have "x \<in> ?row ` set ?states" by (simp only: set_map)
    then obtain s where s: "s \<in> set ?states" and xs: "x = ?row s" by blast
    have r: "r = take 3 (?row s) @ take 6 (drop 3 (?row s))"
      unfolding rx xs ..
    show "length r = 9"
      unfolding r by (rule pose_of_state_row_length [OF st [OF s] e6]) (simp add: st [OF s])
  qed
  have w10: "\<forall>r\<in>set (items (pd_action_delta d)). length r = 10"
  proof
    fix r assume "r \<in> set (items (pd_action_delta d))"
    then obtain a where a: "a \<in> set (actions data)"
      and r: "r = take 3 (map float32 a) @ rot6d (take 4 (drop 3 (map float32 a)))
                 @ drop 7 (map float32 a)"
      unfolding d3 by auto
    have l: "length (map float32 a) = 8" using a act8 by simp
    show "length r = 10"
      unfolding r using l by (intro action_row_length e6) simp_all
  qed
  have its: "items (pd_color_image1 d)
        = butlast (map (\<lambda>ob. astype_uint8 (obs_color_image1 ob)) (observations data))"
    "items (pd_color_image2 d)
        = butlast (map (\<lambda>ob. astype_uint8 (obs_color_image2 ob)) (observations data))"
    by (simp_all add: d4 d5 comp_def)
  have f1: "\<forall>f\<in>set (items (pd_color_image1 d)). fshape f = [H, W, 3]"
    unfolding its using img1 by (auto dest!: in_set_butlastD simp: fshape_astype_uint8)
  have f2: "\<forall>f\<in>set (items (pd_color_image2 d)). fshape f = [H, W, 3]"
    unfolding its using img2 by (auto dest!: in_set_butlastD simp: fshape_astype_uint8)
  from res s16 rs ap shapes its w16 w9 w10 f1 f2 show ?thesis
    by (intro exI [of _ d] exI [of _ state16] conjI)
qed

theorem process_pickle_file_channels_witness:
  "\<exists>d. process_pickle_file (\<lambda>p. Inr (example_episode [0, 1])) (\<lambda>rs. rs) (\<lambda>x. x) quat_to_rot_6d
          example_path (0::real) = Inr d \<and>
       shape (pd_robot_state d) = [2, 16] \<and>
       shape (pd_action_pos d) = [2, 9] \<and>
       shape (pd_action_delta d) = [2, 10] \<and>
       shape (pd_color_image1 d) = [2, 1, 1, 3] \<and>
       shape (pd_color_image2 d) = [2, 1, 1, 3]"
proof -
  have q: "\<forall>q. length q = 4 \<longrightarrow> length (quat_to_rot_6d q) = 6"
    by (simp add: quat_to_rot_6d_length)
  have "\<exists>d state16.
      process_pickle_file (\<lambda>p. Inr (example_episode [0, 1])) (\<lambda>rs. rs) (\<lambda>x. x) quat_to_rot_6d
        example_path (0::real) = Inr d \<and>
      proprioceptive_to_6d_rotation quat_to_rot_6d
        \<lparr>items = map (\<lambda>ob. map (\<lambda>x. x) ((\<lambda>rs. rs) (obs_robot_state ob)))
                   (observations (example_episode [0, 1])),
         dims = [14]\<rparr> = Inr state16 \<and>
      pd_robot_state d = drop_last state16 \<and>
      shape (pd_robot_state d) = [2, 16] \<and>
      (\<forall>r\<in>set (items (pd_robot_state d)). length r = 16) \<and>
      extract_ee_pose_6d (drop_first state16) = Inr (pd_action_pos d) \<and>
      shape (pd_action_pos d) = [2, 9] \<and>
      (\<forall>r\<in>set (items (pd_action_pos d)). length r = 9) \<and>
      shape (pd_action_delta d) = [2, 10] \<and>
      (\<forall>r\<in>set (items (pd_action_delta d)). length r = 10) \<and>
      items (pd_color_image1 d)
        = butlast (map (\<lambda>ob. astype_uint8 (obs_color_image1 ob))
            (observations (example_episode [0, 1]))) \<and>
      shape (pd_color_image1 d) = [2, 1, 1, 3] \<and>
      (\<forall>f\<in>set (items (pd_color_image1 d)). fshape f = [1, 1, 3]) \<and>
      items (pd_color_image2 d)
        = butlast (map (\<lambda>ob. astype_uint8 (obs_color_image2 ob))
            (observations (example_episode [0, 1]))) \<and>
      shape (pd_color_image2 d) = [2, 1, 1, 3] \<and>
      (\<forall>f\<in>set (items (pd_color_image2 d)). fshape f = [1, 1, 3])"
    by (rule process_pickle_file_channels [where data = "example_episode [0, 1]"])
      (simp_all add: q example_episode_def example_observation_def example_frame_def
        example_path_def)
  then show ?thesis by blast
qed

text \<open>
  Claim C3 as the spec words it fails on two kinds of episode it covers: one observation
  and no action (\<open>N = 0\<close>), where \<open>np.array([])\<close> has a single axis and \<open>action.shape[1]\<close>
  raises; and an episode read from a path without a \<open>raw\<close> component, where
  \<open>parts.index("raw")\<close> raises.
\<close>

theorem process_pickle_file_channels_counterexample:
  "process_pickle_file
     (\<lambda>p. Inr \<lparr>observations = [example_observation], actions = [], rewards = [], skills = [],
                furniture = ''lamp'', success = True\<rparr>)
     (\<lambda>rs. rs) (\<lambda>x. x) quat_to_rot_6d example_path (0::real) = Inl IndexError \<and>
   process_pickle_file (\<lambda>p. Inr (example_episode [0, 1])) (\<lambda>rs. rs) (\<lambda>x. x) quat_to_rot_6d
     [''/'', ''data'', ''other'', ''1.pkl''] (0::real)
     = Inl (ValueError ''tuple.index(x): x not in tuple'')"
proof
  show "process_pickle_file
     (\<lambda>p. Inr \<lparr>observations = [example_observation], actions = [], rewards = [], skills = [],
                furniture = ''lamp'', success = True\<rparr>)
     (\<lambda>rs. rs) (\<lambda>x. x) quat_to_rot_6d example_path (0::real) = Inl IndexError"
    by (simp add: process_pickle_file_def example_observation_def example_frame_def
        np_array_def row_shape_def Let_def proprioceptive_to_6d_rotation_rows
        action_to_6d_rotation_def shape1_def)
  show "process_pickle_file (\<lambda>p. Inr (example_episode [0, 1])) (\<lambda>rs. rs) (\<lambda>x. x) quat_to_rot_6d
     [''/'', ''data'', ''other'', ''1.pkl''] (0::real)
     = Inl (ValueError ''tuple.index(x): x not in tuple'')"
    by (simp add: process_pickle_file_def example_episode_def example_observation_def
        example_frame_def np_array_def row_shape_def scalar_shape_def Let_def
        proprioceptive_to_6d_rotation_rows action_to_6d_rotation_rows extract_ee_pose_6d_rows
        drop_last_def drop_first_def len_def)
qed

lemma proprioceptive_to_6d_rotation_InrD:
  "proprioceptive_to_6d_rotation rot6d a = Inr b \<Longrightarrow> \<exists>ds. dims a = 14 # ds"
  by (cases "dims a")
    (auto simp: proprioceptive_to_6d_rotation_def shape1_def split: if_splits)

lemma action_to_6d_rotation_InrD:
  "action_to_6d_rotation rot6d a = Inr b \<Longrightarrow> \<exists>ds. dims a = 8 # ds"
  by (cases "dims a")
    (auto simp: action_to_6d_rotation_def shape1_def split: if_splits)

lemma process_pickle_file_InrD:
  assumes "process_pickle_file unpickle_data fcrs float32 rot6d pickle_path noop_threshold = Inr d"
  shows "\<exists>data. unpickle_data pickle_path = Inr data \<and>
           0 < pd_episode_length d \<and>
           length (observations data) = Suc (pd_episode_length d) \<and>
           length (actions data) = pd_episode_length d \<and>
           len (pd_robot_state d) = pd_episode_length d \<and>
           len (pd_color_image1 d) = pd_episode_length d \<and>
           len (pd_color_image2 d) = pd_episode_length d \<and>
           len (pd_action_delta d) = pd_episode_length d \<and>
           len (pd_action_pos d) = pd_episode_length d \<and>
           dims (pd_robot_state d) = [16] \<and>
           dims (pd_action_delta d) = [10] \<and>
           dims (pd_action_pos d) = [9] \<and>
           pd_reward d = \<lparr>items = map float32 (rewards data), dims = []\<rparr> \<and>
           pd_skill d = \<lparr>items = map float32 (skills data), dims = []\<rparr> \<and>
           pd_furniture d = furniture data \<and>
           pd_success d = success data \<and>
           ''raw'' \<in> set pickle_path \<and>
           pd_pickle_file d = join ''/'' (tl (dropWhile (\<lambda>c. c \<noteq> ''raw'') pickle_path))"
proof -
  from assms obtain data c1 c2 raw_state all16 raw_action action_delta action_pos i where
    data: "unpickle_data pickle_path = Inr data"
    and c1: "np_array astype_uint8 fshape (map obs_color_image1 (observations data)) = Inr c1"
    and c2: "np_array astype_uint8 fshape (map obs_color_image2 (observations data)) = Inr c2"
    and rs: "np_array (map float32) row_shape
               (map (\<lambda>ob. fcrs (obs_robot_state ob)) (observations data)) = Inr raw_state"
    and s16: "proprioceptive_to_6d_rotation rot6d raw_state = Inr all16"
    and ra: "np_array (map float32) row_shape (actions data) = Inr raw_action"
    and ad: "action_to_6d_rotation rot6d raw_action = Inr action_delta"
    and ap: "extract_ee_pose_6d (drop_first all16) = Inr action_pos"
    and eq: "len (drop_last all16) = len action_delta"
    and i: "tuple_index ''raw'' pickle_path = Inr i"
    and d: "d = \<lparr>pd_robot_state = drop_last all16,
           pd_color_image1 = drop_last c1,
           pd_color_image2 = drop_last c2,
           pd_action_delta = action_delta,
           pd_action_pos = action_pos,
           pd_reward = \<lparr>items = map float32 (rewards data), dims = []\<rparr>,
           pd_skill = \<lparr>items = map float32 (skills data), dims = []\<rparr>,
           pd_episode_length = len action_delta,
           pd_furniture = furniture data,
           pd_success = success data,
           pd_pickle_file = join ''/'' (drop (i + 1) pickle_path)\<rparr>"
    unfolding process_pickle_file_def
    by (auto simp: and_then_eq_Inr Let_def np_array_scalars split: if_splits)
  have raw: "''raw'' \<in> set pickle_path"
    using i by (rule tuple_index_Inr)
  have dr: "drop (i + 1) pickle_path = tl (dropWhile (\<lambda>c. c \<noteq> ''raw'') pickle_path)"
    using tuple_index_found [OF raw] i by auto
  obtain ds where "dims raw_state = 14 # ds"
    using proprioceptive_to_6d_rotation_InrD [OF s16] by blast
  with np_array_rows_dims [OF rs] have rs14: "dims raw_state = [14]" by simp
  obtain ds' where "dims raw_action = 8 # ds'"
    using action_to_6d_rotation_InrD [OF ad] by blast
  with np_array_rows_dims [OF ra] have ra8: "dims raw_action = [8]" and act_ne: "actions data \<noteq> []"
    by simp_all
  have all16: "all16 = \<lparr>items = map (\<lambda>r. take 3 r @ rot6d (take 4 (drop 3 r)) @ take 3 (drop 7 r)
                           @ take 3 (drop 10 r) @ drop 13 r) (items raw_state), dims = [16]\<rparr>"
    using s16 by (simp add: proprioceptive_to_6d_rotation_rows [OF rs14])
  have adv: "action_delta = \<lparr>items = map (\<lambda>r. take 3 r @ rot6d (take 4 (drop 3 r)) @ drop 7 r)
                           (items raw_action), dims = [10]\<rparr>"
    using ad by (simp add: action_to_6d_rotation_rows [OF ra8])
  have apv: "action_pos = \<lparr>items = map (\<lambda>r. take 3 r @ take 6 (drop 3 r)) (items (drop_first all16)),
                           dims = [9]\<rparr>"
    using ap by (simp add: extract_ee_pose_6d_rows all16 drop_first_def)
  have n_act: "len action_delta = length (actions data)"
    by (simp add: adv len_def np_array_items [OF ra])
  have n_obs: "len (drop_last all16) = length (observations data) - 1"
    by (simp add: all16 len_def drop_last_def np_array_items [OF rs])
  have n_pos: "len action_pos = length (observations data) - 1"
    by (simp add: apv all16 len_def drop_first_def np_array_items [OF rs])
  have n_c1: "len (drop_last c1) = length (observations data) - 1"
    and n_c2: "len (drop_last c2) = length (observations data) - 1"
    by (simp_all add: len_def drop_last_def np_array_items [OF c1] np_array_items [OF c2])
  have pos: "0 < length (actions data)" using act_ne by simp
  have obs: "length (observations data) = Suc (length (actions data))"
    using eq n_act n_obs act_ne by (cases "actions data") auto
  show ?thesis
    apply (rule exI [of _ data])
    apply (simp only: d processed_data.simps)
    apply (intro conjI)
    using data n_act n_obs n_pos n_c1 n_c2 pos obs raw dr
    apply (simp_all add: all16 adv apv drop_last_def)
    done
qed

lemma process_pickle_file_mismatch:
  assumes data: "unpickle_data pickle_path = Inr data"
    and nobs: "length (observations data) = Suc M"
    and nact: "length (actions data) = N" and pos: "0 < N" and ne: "M \<noteq> N"
    and act8: "\<forall>a\<in>set (actions data). length a = 8"
    and st14: "\<forall>ob\<in>set (observations data). length (fcrs (obs_robot_state ob)) = 14"
    and img1: "\<forall>ob\<in>set (observations data). fshape (obs_color_image1 ob) = s1"
    and img2: "\<forall>ob\<in>set (observations data). fshape (obs_color_image2 ob) = s2"
  shows "process_pickle_file unpickle_data fcrs float32 rot6d pickle_path noop_threshold =
           Inl (MismatchAssertion pickle_path (int M - int N))"
proof -
  let ?obs = "observations data"
  let ?states = "map (\<lambda>ob. fcrs (obs_robot_state ob)) ?obs"
  have obs_ne: "?obs \<noteq> []" and act_ne: "actions data \<noteq> []"
    using nobs nact pos by auto
  have c1: "np_array astype_uint8 fshape (map obs_color_image1 ?obs)
              = Inr \<lparr>items = map astype_uint8 (map obs_color_image1 ?obs), dims = s1\<rparr>"
    using obs_ne img1 by (intro np_array_stack) auto
  have c2: "np_array astype_uint8 fshape (map obs_color_image2 ?obs)
              = Inr \<lparr>items = map astype_uint8 (map obs_color_image2 ?obs), dims = s2\<rparr>"
    using obs_ne img2 by (intro np_array_stack) auto
  have rs: "np_array (map float32) row_shape ?states
              = Inr \<lparr>items = map (map float32) ?states, dims = [14]\<rparr>"
    using obs_ne st14 by (intro np_array_stack) (auto simp: row_shape_def)
  have ra: "np_array (map float32) row_shape (actions data)
              = Inr \<lparr>items = map (map float32) (actions data), dims = [8]\<rparr>"
    using act_ne act8 by (intro np_array_stack) (auto simp: row_shape_def)
  show ?thesis
    unfolding process_pickle_file_def
    using nobs nact ne
    by (simp add: data c1 c2 rs ra np_array_scalars Let_def
        proprioceptive_to_6d_rotation_rows action_to_6d_rotation_rows extract_ee_pose_6d_rows
        drop_last_def drop_first_def len_def)
qed

text \<open>
  Claim C1.  The assertion of \<open>process_pickle_file\<close> compares the state channel with
  the delta actions only: the example episode with three observations, two actions, two
  skills and five rewards is decoded without an error, into channels of length 2 beside a
  reward channel of length 5.
\<close>

theorem process_pickle_file_reward_length_unchecked:
  "\<exists>d. process_pickle_file (\<lambda>p. Inr (example_episode [0, 0, 0, 0, 1])) (\<lambda>rs. rs) (\<lambda>x. x)
          quat_to_rot_6d example_path (0::real) = Inr d \<and>
       len (pd_robot_state d) = 2 \<and> len (pd_action_delta d) = 2 \<and>
       len (pd_action_pos d) = 2 \<and> len (pd_skill d) = 2 \<and>
       len (pd_reward d) = 5 \<and> pd_episode_length d = 2"
  using process_pickle_file_result [where unpickle_data = "\<lambda>p. Inr (example_episode [0, 0, 0, 0, 1])"
      and pickle_path = example_path and data = "example_episode [0, 0, 0, 0, 1]" and N = 2
      and fcrs = "\<lambda>rs. rs" and ?float32.0 = "\<lambda>x. x" and ?s1.0 = "[1, 1, 3]" and ?s2.0 = "[1, 1, 3]"
      and rot6d = quat_to_rot_6d and noop_threshold = "0::real"]
  by (simp add: example_episode_def example_observation_def example_frame_def example_path_def
      len_def)

section \<open>Properties of the aggregation and of the script\<close>

lemma aggregate_loop_Inl:
  "Inl e \<in> set futures \<Longrightarrow>
   \<exists>e'. Inl e' \<in> set futures \<and> aggregate_loop aggregated futures = Inl e'"
proof (induction futures arbitrary: aggregated)
  case Nil
  then show ?case by simp
next
  case (Cons future futures)
  show ?case
  proof (cases future)
    case (Inl e0)
    then show ?thesis by auto
  next
    case (Inr data)
    with Cons.prems have "Inl e \<in> set futures" by auto
    from Cons.IH [OF this, of "aggregate_keys aggregated data"] Inr show ?thesis by auto
  qed
qed

lemma aggregate_loop_Inr:
  "aggregate_loop aggregated futures = Inr aggregated' \<Longrightarrow>
   \<exists>ds. futures = map Inr ds \<and> aggregated' = foldl aggregate_keys aggregated ds"
proof (induction futures arbitrary: aggregated)
  case Nil
  then show ?case by simp
next
  case (Cons future futures)
  from Cons.prems obtain data where f: "future = Inr data"
    and rest: "aggregate_loop (aggregate_keys aggregated data) futures = Inr aggregated'"
    by (cases future) auto
  from Cons.IH [OF rest] obtain ds where "futures = map Inr ds"
    and "aggregated' = foldl aggregate_keys (aggregate_keys aggregated data) ds"
    by blast
  with f show ?case
    by (intro exI [of _ "data # ds"]) simp
qed

lemma aggregate_loop_map_Inr:
  "aggregate_loop aggregated (map Inr ds) = Inr (foldl aggregate_keys aggregated ds)"
  by (induction ds arbitrary: aggregated) simp_all

lemma process_pickle_file_noop:
  "process_pickle_file unpickle_data fcrs float32 rot6d pickle_path n =
   process_pickle_file unpickle_data fcrs float32 rot6d pickle_path n'"
  by (simp add: process_pickle_file_def)

lemma parallel_process_pickle_files_Inl:
  assumes perm: "\<forall>fs. mset (as_completed fs) = mset fs"
    and p: "p \<in> set pickle_paths" and fail: "process p noop_threshold = Inl e"
  shows "\<exists>p' e'. p' \<in> set pickle_paths \<and> process p' noop_threshold = Inl e' \<and>
           parallel_process_pickle_files as_completed process pickle_paths noop_threshold num_threads
             = Inl e'"
proof -
  let ?futures = "map (\<lambda>path. process path noop_threshold) pickle_paths"
  have set_eq: "set (as_completed ?futures) = set ?futures"
    using perm by (metis set_mset_mset)
  have "Inl e \<in> set ?futures" using p fail by force
  then have "Inl e \<in> set (as_completed ?futures)" using set_eq by simp
  from aggregate_loop_Inl [OF this, of empty_accumulator]
  obtain e' where mem: "Inl e' \<in> set (as_completed ?futures)"
    and loop: "aggregate_loop empty_accumulator (as_completed ?futures) = Inl e'"
    by blast
  from mem set_eq obtain p' where "p' \<in> set pickle_paths" "process p' noop_threshold = Inl e'"
    by auto
  moreover have "parallel_process_pickle_files as_completed process pickle_paths noop_threshold
      num_threads = Inl e'"
    by (simp add: parallel_process_pickle_files_def loop)
  ultimately show ?thesis by blast
qed

lemma example_path_decodes:
  "\<exists>d. process_pickle_file (\<lambda>p. Inr (example_episode [0, 1])) (\<lambda>rs. rs) (\<lambda>x. x) quat_to_rot_6d
      example_path n = Inr d"
  using process_pickle_file_result [where unpickle_data = "\<lambda>p. Inr (example_episode [0, 1])"
      and pickle_path = example_path and data = "example_episode [0, 1]" and N = 2
      and fcrs = "\<lambda>rs. rs" and ?float32.0 = "\<lambda>x. x" and ?s1.0 = "[1, 1, 3]" and ?s2.0 = "[1, 1, 3]"
      and rot6d = quat_to_rot_6d and noop_threshold = n]
  by (simp add: example_episode_def example_observation_def example_frame_def example_path_def)

lemma no_raw_fails:
  "process_pickle_file (\<lambda>p. Inr (example_episode [0, 1])) (\<lambda>rs. rs) (\<lambda>x. x) quat_to_rot_6d
      [''/'', ''data'', ''other'', ''1.pkl''] n = Inl (ValueError ''tuple.index(x): x not in tuple'')"
  by (simp add: process_pickle_file_def example_episode_def example_observation_def
      example_frame_def np_array_def row_shape_def scalar_shape_def Let_def
      proprioceptive_to_6d_rotation_rows action_to_6d_rotation_rows extract_ee_pose_6d_rows
      drop_last_def drop_first_def len_def)

text \<open>
  Claim C4.  When the decoding of one of the paths fails, the aggregation fails with the
  error of a failed decoding task (the first one in completion order), so that no
  aggregated data exists; the script ends with an exception and leaves the output path
  as it was: no store is created and nothing is written.
\<close>

theorem decode_failure_aborts:
  assumes perm: "\<forall>fs. mset (as_completed fs) = mset fs"
    and p: "p \<in> set pickle_paths"
    and fail: "process_pickle_file unpickle_data fcrs float32 rot6d p (0::real) = Inl e"
  shows "\<exists>p' e'. p' \<in> set pickle_paths \<and>
           process_pickle_file unpickle_data fcrs float32 rot6d p' (0::real) = Inl e' \<and>
           parallel_process_pickle_files as_completed
             (process_pickle_file unpickle_data fcrs float32 rot6d) pickle_paths (0::real) n_cpus = Inl e' \<and>
           main unpickle_data fcrs float32 rot6d as_completed time_created time_finished storage_ok
             n_cpus pickle_paths output_path overwrite disk =
             (Some (if disk \<noteq> None \<and> \<not> overwrite then OutputExists output_path else e'), disk)"
proof -
  from parallel_process_pickle_files_Inl [of as_completed p pickle_paths
      "process_pickle_file unpickle_data fcrs float32 rot6d" "0::real" e n_cpus, OF perm p fail]
  obtain p' e' where p': "p' \<in> set pickle_paths"
    and e': "process_pickle_file unpickle_data fcrs float32 rot6d p' (0::real) = Inl e'"
    and agg: "parallel_process_pickle_files as_completed
             (process_pickle_file unpickle_data fcrs float32 rot6d) pickle_paths (0::real) n_cpus = Inl e'"
    by blast
  have "main unpickle_data fcrs float32 rot6d as_completed time_created time_finished storage_ok
             n_cpus pickle_paths output_path overwrite disk =
             (Some (if disk \<noteq> None \<and> \<not> overwrite then OutputExists output_path else e'), disk)"
    by (simp add: main_def agg)
  with p' e' agg show ?thesis by blast
qed

theorem decode_failure_aborts_witness:
  "main (\<lambda>p. Inr (example_episode [0, 1])) (\<lambda>rs. rs) (\<lambda>x. x) quat_to_rot_6d rev ''t0'' ''t1''
     (\<lambda>name. True) 4 [example_path, [''/'', ''data'', ''other'', ''1.pkl'']] [''out''] False None
   = (Some (ValueError ''tuple.index(x): x not in tuple''), None)"
proof -
  have perm: "\<forall>fs::(error + int processed_data) list. mset (rev fs) = mset fs"
    by simp
  have mem: "[''/'', ''data'', ''other'', ''1.pkl'']
      \<in> set [example_path, [''/'', ''data'', ''other'', ''1.pkl'']]"
    by simp
  note inst = decode_failure_aborts [where as_completed = rev and unpickle_data = "\<lambda>p. Inr (example_episode [0, 1])"
      and fcrs = "\<lambda>rs. rs" and ?float32.0 = "\<lambda>x. x" and rot6d = quat_to_rot_6d and n_cpus = 4
      and time_created = "''t0''" and time_finished = "''t1''" and storage_ok = "\<lambda>name. True"
      and output_path = "[''out'']" and overwrite = False and disk = None,
      OF perm mem no_raw_fails]
  from inst obtain p' e'
    where p': "p' \<in> set [example_path, [''/'', ''data'', ''other'', ''1.pkl'']]"
    and e': "process_pickle_file (\<lambda>p. Inr (example_episode [0, 1])) (\<lambda>rs. rs) (\<lambda>x. x) quat_to_rot_6d
               p' (0::real) = Inl e'"
    and m: "main (\<lambda>p. Inr (example_episode [0, 1])) (\<lambda>rs. rs) (\<lambda>x. x) quat_to_rot_6d rev ''t0'' ''t1''
     (\<lambda>name. True) 4 [example_path, [''/'', ''data'', ''other'', ''1.pkl'']] [''out''] False None
       = (Some e', None)"
    by auto
  have "p' \<noteq> example_path"
    using e' example_path_decodes [of "0::real"] by auto
  with p' have "p' = [''/'', ''data'', ''other'', ''1.pkl'']" by simp
  with e' have "e' = ValueError ''tuple.index(x): x not in tuple''"
    by (simp add: no_raw_fails)
  with m show ?thesis by simp
qed



section \<open>Properties of the store\<close>

lemma map_of_dict_set: "map_of (dict_set k v kvs) = (map_of kvs)(k \<mapsto> v)"
  by (induction kvs) (auto simp: fun_eq_iff)

lemma keys_dict_set_fresh:
  "k \<notin> set (map fst kvs) \<Longrightarrow> map fst (dict_set k v kvs) = map fst kvs @ [k]"
  by (induction kvs) auto

lemma keys_dict_set_present:
  "k \<in> set (map fst kvs) \<Longrightarrow> map fst (dict_set k v kvs) = map fst kvs"
  by (induction kvs) force+

lemma attrs_create_datasets: "attrs (create_datasets z chunksize fds) = attrs z"
  by (induction z chunksize fds rule: create_datasets.induct)
    (simp_all add: create_dataset_def Let_def)

lemma keys_create_datasets:
  "distinct (map fst fds) \<Longrightarrow> set (map fst (arrays z)) \<inter> set (map fst fds) = {} \<Longrightarrow>
   map fst (arrays (create_datasets z chunksize fds)) = map fst (arrays z) @ map fst fds"
proof (induction z chunksize fds rule: create_datasets.induct)
  case (1 z chunksize)
  then show ?case by simp
next
  case (2 z chunksize name shp dt rest)
  have fresh: "name \<notin> set (map fst (arrays z))" using "2.prems" by auto
  have d: "distinct (map fst rest)" and nm: "name \<notin> set (map fst rest)"
    using "2.prems" by auto
  show ?case
  proof (cases "str_contains ''color_image'' name")
    case True
    let ?z = "create_dataset z name shp dt (chunksize # tl shp) (Blosc ''zstd'' 9 BITSHUFFLE)"
    have k: "map fst (arrays ?z) = map fst (arrays z) @ [name]"
      using fresh by (simp add: create_dataset_def keys_dict_set_fresh)
    have "set (map fst (arrays ?z)) \<inter> set (map fst rest) = {}"
      using "2.prems" nm by (auto simp: k)
    from "2.IH"(1) [OF refl True d this] True k show ?thesis by simp
  next
    case False
    let ?z = "create_dataset z name shp dt (chunksize # tl shp) DefaultCompressor"
    have k: "map fst (arrays ?z) = map fst (arrays z) @ [name]"
      using fresh by (simp add: create_dataset_def keys_dict_set_fresh)
    have "set (map fst (arrays ?z)) \<inter> set (map fst rest) = {}"
      using "2.prems" nm by (auto simp: k)
    from "2.IH"(2) [OF refl False d this] False k show ?thesis by simp
  qed
qed

lemma lookup_create_datasets:
  "distinct (map fst fds) \<Longrightarrow>
   map_of (arrays (create_datasets z chunksize fds)) name =
     (case map_of fds name of
        None \<Rightarrow> map_of (arrays z) name
      | Some (shp, dt) \<Rightarrow>
          Some \<lparr>ds_shape = shp, ds_dtype = dt, ds_chunks = chunksize # tl shp,
                ds_compressor = (if str_contains ''color_image'' name
                                 then Blosc ''zstd'' 9 BITSHUFFLE else DefaultCompressor),
                ds_data = None\<rparr>)"
proof (induction z chunksize fds rule: create_datasets.induct)
  case (1 z chunksize)
  then show ?case by simp
next
  case (2 z chunksize n shp dt rest)
  have d: "distinct (map fst rest)" and nm: "n \<notin> set (map fst rest)"
    using "2.prems" by auto
  have none: "map_of rest n = None"
    using nm by (simp add: map_of_eq_None_iff)
  show ?case
  proof (cases "str_contains ''color_image'' n")
    case True
    from "2.IH"(1) [OF refl True d] True none show ?thesis
      by (auto simp: create_dataset_def map_of_dict_set split: option.splits)
  next
    case False
    from "2.IH"(2) [OF refl False d] False none show ?thesis
      by (auto simp: create_dataset_def map_of_dict_set split: option.splits)
  qed
qed

lemma script_image_channels:
  "filter (str_contains ''color_image'') (map fst (full_data_shapes all_data))
     = [''color_image1'', ''color_image2'']"
  by (simp add: full_data_shapes_def)

lemma script_channels_distinct: "distinct (map fst (full_data_shapes all_data))"
  by (simp add: full_data_shapes_def)

text \<open>
  Claim C8.  \<open>initialize_zarr_store\<close>, given channels with distinct names, creates exactly
  these channels, each with the full shape it was given, no data yet, and the chunk shape
  made of the chunk size followed by the trailing dimensions of the full shape; a channel
  gets the bit-shuffled level-9 zstd compressor if and only if its name contains
  \<open>color_image\<close>, and the default otherwise.  Among the (distinct) channels of the script
  these are the two image channels.
\<close>

theorem initialize_zarr_store_policy:
  assumes dist: "distinct (map fst fds)" and mem: "(name, shp, dt) \<in> set fds"
  shows "map fst (arrays (initialize_zarr_store now out_path fds chunksize)) = map fst fds \<and>
         map_of (arrays (initialize_zarr_store now out_path fds chunksize)) name =
           Some \<lparr>ds_shape = shp, ds_dtype = dt, ds_chunks = chunksize # tl shp,
                 ds_compressor = (if str_contains ''color_image'' name
                                  then Blosc ''zstd'' 9 BITSHUFFLE else DefaultCompressor),
                 ds_data = None\<rparr> \<and>
         distinct (map fst (full_data_shapes all_data)) \<and>
         filter (str_contains ''color_image'') (map fst (full_data_shapes all_data))
           = [''color_image1'', ''color_image2'']"
proof -
  have look: "map_of fds name = Some (shp, dt)"
    using dist mem by simp
  have 1: "map fst (arrays (initialize_zarr_store now out_path fds chunksize)) = map fst fds"
    using keys_create_datasets [OF dist, of "\<lparr>attrs = [(''time_created'', AttrStr now)], arrays = []\<rparr>"
        chunksize]
    by (simp add: initialize_zarr_store_def)
  have 2: "map_of (arrays (initialize_zarr_store now out_path fds chunksize)) name =
           Some \<lparr>ds_shape = shp, ds_dtype = dt, ds_chunks = chunksize # tl shp,
                 ds_compressor = (if str_contains ''color_image'' name
                                  then Blosc ''zstd'' 9 BITSHUFFLE else DefaultCompressor),
                 ds_data = None\<rparr>"
    using lookup_create_datasets [OF dist, of "\<lparr>attrs = [(''time_created'', AttrStr now)], arrays = []\<rparr>"
        chunksize name] look
    by (simp add: initialize_zarr_store_def)
  from 1 2 script_channels_distinct script_image_channels show ?thesis
    by (intro conjI)
qed

theorem initialize_zarr_store_policy_witness:
  "map_of (arrays (initialize_zarr_store ''t0'' [''out'']
       [(''robot_state'', [5, 16], Float32), (''color_image1'', [5, 224, 224, 3], UInt8),
        (''episode_ends'', [2], UInt32)] 1000 :: int store)) ''color_image1'' =
     Some \<lparr>ds_shape = [5, 224, 224, 3], ds_dtype = UInt8, ds_chunks = [1000, 224, 224, 3],
           ds_compressor = Blosc ''zstd'' 9 BITSHUFFLE, ds_data = None\<rparr> \<and>
   map_of (arrays (initialize_zarr_store ''t0'' [''out'']
       [(''robot_state'', [5, 16], Float32), (''color_image1'', [5, 224, 224, 3], UInt8),
        (''episode_ends'', [2], UInt32)] 1000 :: int store)) ''robot_state'' =
     Some \<lparr>ds_shape = [5, 16], ds_dtype = Float32, ds_chunks = [1000, 16],
           ds_compressor = DefaultCompressor, ds_data = None\<rparr>"
proof -
  let ?fds = "[(''robot_state'', [5, 16], Float32),
        (''color_image1'', [5, 224, 224, 3], UInt8), (''episode_ends'', [2::nat], UInt32)]"
  have d: "distinct (map fst ?fds)" by simp
  have m1: "(''color_image1'', [5, 224, 224, 3], UInt8) \<in> set ?fds" by simp
  have m2: "(''robot_state'', [5, 16], Float32) \<in> set ?fds" by simp
  have 1: "map_of (arrays (initialize_zarr_store ''t0'' [''out''] ?fds 1000 :: int store))
      ''color_image1'' =
     Some \<lparr>ds_shape = [5, 224, 224, 3], ds_dtype = UInt8, ds_chunks = 1000 # tl [5, 224, 224, 3],
           ds_compressor = (if str_contains ''color_image'' ''color_image1''
                            then Blosc ''zstd'' 9 BITSHUFFLE else DefaultCompressor),
           ds_data = None\<rparr>"
    by (rule initialize_zarr_store_policy [OF d m1, THEN conjunct2, THEN conjunct1])
  have 2: "map_of (arrays (initialize_zarr_store ''t0'' [''out''] ?fds 1000 :: int store))
      ''robot_state'' =
     Some \<lparr>ds_shape = [5, 16], ds_dtype = Float32, ds_chunks = 1000 # tl [5, 16],
           ds_compressor = (if str_contains ''color_image'' ''robot_state''
                            then Blosc ''zstd'' 9 BITSHUFFLE else DefaultCompressor),
           ds_data = None\<rparr>"
    by (rule initialize_zarr_store_policy [OF d m2, THEN conjunct2, THEN conjunct1])
  show ?thesis
    unfolding 1 2 by simp
qed

lemma write_to_zarr_store_InrD:
  assumes "write_to_zarr_store storage_ok z key val = Inr z'"
  shows "storage_ok key \<and> attrs z' = attrs z \<and>
         (\<exists>ds. map_of (arrays z) key = Some ds \<and> ds_shape ds = data_shape val \<and>
               arrays z' = dict_set key (ds\<lparr>ds_data := Some val\<rparr>) (arrays z))"
  using assms
  by (auto simp: write_to_zarr_store_def split: option.splits if_splits)


lemma attrs_write_loop: "attrs (snd (write_loop storage_ok z its)) = attrs z"
proof (induction its arbitrary: z)
  case Nil
  then show ?case by simp
next
  case (Cons it its)
  obtain name val where it: "it = (name, val)" by (cases it)
  show ?case
  proof (cases "write_to_zarr_store storage_ok z name val")
    case (Inl e)
    then show ?thesis by (simp add: it)
  next
    case (Inr z')
    from write_to_zarr_store_InrD [OF Inr] have "attrs z' = attrs z" by blast
    with Cons.IH [of z'] Inr show ?thesis by (simp add: it)
  qed
qed

lemma keys_write_loop:
  "map fst (arrays (snd (write_loop storage_ok z its))) = map fst (arrays z)"
proof (induction its arbitrary: z)
  case Nil
  then show ?case by simp
next
  case (Cons it its)
  obtain name val where it: "it = (name, val)" by (cases it)
  show ?case
  proof (cases "write_to_zarr_store storage_ok z name val")
    case (Inl e)
    then show ?thesis by (simp add: it)
  next
    case (Inr z')
    from write_to_zarr_store_InrD [OF Inr] obtain ds
      where look: "map_of (arrays z) name = Some ds"
        and arr: "arrays z' = dict_set name (ds\<lparr>ds_data := Some val\<rparr>) (arrays z)"
      by blast
    from look have "name \<in> set (map fst (arrays z))"
      by (metis map_of_eq_None_iff option.distinct(1) set_map)
    then have "map fst (arrays z') = map fst (arrays z)"
      by (simp add: arr keys_dict_set_present)
    with Cons.IH [of z'] Inr show ?thesis by (simp add: it)
  qed
qed





lemma initialize_zarr_store_attrs:
  "attrs (initialize_zarr_store now out_path fds chunksize) = [(''time_created'', AttrStr now)]"
  by (simp add: initialize_zarr_store_def attrs_create_datasets)




section \<open>Properties of the script\<close>




lemma main_after_aggregation:
  assumes agg: "parallel_process_pickle_files as_completed
          (process_pickle_file unpickle_data fcrs float32 rot6d) pickle_paths (0::real) n_cpus = Inr all_data"
    and go: "disk = None \<or> overwrite"
  shows "main unpickle_data fcrs float32 rot6d as_completed time_created time_finished storage_ok
           n_cpus pickle_paths output_path overwrite disk =
         (case write_loop storage_ok
                 (initialize_zarr_store time_created output_path (full_data_shapes all_data) 1000)
                 (all_data_items all_data) of
            (Some e, z') \<Rightarrow> (Some e, Some z')
          | (None, z') \<Rightarrow> (None, Some (finish_metadata time_finished 0 1000 z')))"
  using go by (auto simp: main_def Let_def agg)

lemma finish_metadata_attrs:
  "attrs z = [(''time_created'', v)] \<Longrightarrow>
   attrs (finish_metadata now noop_threshold chunksize z) =
     [(''time_created'', v), (''time_finished'', AttrStr now),
      (''noop_threshold'', AttrFloat noop_threshold), (''chunksize'', AttrInt (int chunksize))]"
  by (simp add: finish_metadata_def Let_def)

lemma finish_metadata_arrays: "arrays (finish_metadata now noop_threshold chunksize z) = arrays z"
  by (simp add: finish_metadata_def Let_def)


lemma example_episode_decodes:
  "\<exists>d. process_pickle_file (\<lambda>p. Inr (example_episode rs)) (\<lambda>rs. rs) (\<lambda>x. x) quat_to_rot_6d
      example_path n = Inr d \<and>
      pd_episode_length d = 2 \<and> len (pd_robot_state d) = 2 \<and> len (pd_action_delta d) = 2 \<and>
      pd_reward d = \<lparr>items = rs, dims = []\<rparr>"
  using process_pickle_file_result [where unpickle_data = "\<lambda>p. Inr (example_episode rs)"
      and pickle_path = example_path and data = "example_episode rs" and N = 2
      and fcrs = "\<lambda>rs. rs" and ?float32.0 = "\<lambda>x. x" and ?s1.0 = "[1, 1, 3]" and ?s2.0 = "[1, 1, 3]"
      and rot6d = quat_to_rot_6d and noop_threshold = n]
  by (simp add: example_episode_def example_observation_def example_frame_def example_path_def
      len_def)

lemma single_episode_aggregation:
  "process p n = Inr d \<Longrightarrow>
   parallel_process_pickle_files (\<lambda>fs. fs) process [p] n k =
     Inr \<lparr>agg_robot_state = pd_robot_state d,
          agg_color_image1 = pd_color_image1 d,
          agg_color_image2 = pd_color_image2 d,
          agg_action_delta = pd_action_delta d,
          agg_action_pos = pd_action_pos d,
          agg_reward = pd_reward d,
          agg_skill = pd_skill d,
          agg_episode_ends = [pd_episode_length d],
          agg_furniture = [pd_furniture d],
          agg_success = [pd_success d],
          agg_pickle_file = [pd_pickle_file d]\<rparr>"
  by (simp add: parallel_process_pickle_files_def aggregate_keys_def empty_accumulator_def
      concatenate_channels_def np_concatenate_def)

text \<open>
  Claim C2.  Aggregating the example episode with three observations, two actions and
  five rewards succeeds with \<open>episode_ends = [2]\<close>, state and delta-action channels of
  length 2, and a reward channel of length 5: the last episode end is not the length of
  every per-timestep channel.
\<close>

theorem aggregated_reward_length_differs:
  "\<exists>all_data. parallel_process_pickle_files (\<lambda>fs. fs)
       (process_pickle_file (\<lambda>p. Inr (example_episode [0, 0, 0, 0, 1])) (\<lambda>rs. rs) (\<lambda>x. x) quat_to_rot_6d)
       [example_path] (0::real) 4 = Inr all_data \<and>
     agg_episode_ends all_data = [2] \<and> len (agg_robot_state all_data) = 2 \<and>
     len (agg_action_delta all_data) = 2 \<and> len (agg_reward all_data) = 5"
proof -
  obtain d where d: "process_pickle_file (\<lambda>p. Inr (example_episode [0, 0, 0, 0, 1])) (\<lambda>rs. rs) (\<lambda>x. x)
      quat_to_rot_6d example_path (0::real) = Inr d"
    and l: "pd_episode_length d = 2" "len (pd_robot_state d) = 2" "len (pd_action_delta d) = 2"
      "pd_reward d = \<lparr>items = [0, 0, 0, 0, 1], dims = []\<rparr>"
    using example_episode_decodes [of "[0, 0, 0, 0, 1]" "0::real"] by blast
  from single_episode_aggregation [of "process_pickle_file (\<lambda>p. Inr (example_episode [0, 0, 0, 0, 1]))
      (\<lambda>rs. rs) (\<lambda>x. x) quat_to_rot_6d" example_path "0::real" d 4, OF d] l
  show ?thesis by (simp add: len_def)
qed

lemma example_aggregates:
  "\<exists>all_data. parallel_process_pickle_files (\<lambda>fs. fs)
       (process_pickle_file (\<lambda>p. Inr (example_episode rs)) (\<lambda>rs. rs) (\<lambda>x. x) quat_to_rot_6d)
       [example_path] (0::real) k = Inr all_data"
proof -
  obtain d where "process_pickle_file (\<lambda>p. Inr (example_episode rs)) (\<lambda>rs. rs) (\<lambda>x. x)
      quat_to_rot_6d example_path (0::real) = Inr d"
    using example_episode_decodes [of rs "0::real"] by blast
  from single_episode_aggregation [of "process_pickle_file (\<lambda>p. Inr (example_episode rs))
      (\<lambda>rs. rs) (\<lambda>x. x) quat_to_rot_6d" example_path "0::real" d k, OF this]
  show ?thesis by blast
qed


lemma main_result_store:
  assumes agg: "parallel_process_pickle_files as_completed
          (process_pickle_file unpickle_data fcrs float32 rot6d) pickle_paths (0::real) n_cpus = Inr all_data"
    and go: "disk = None \<or> overwrite"
  shows "\<exists>e z. main unpickle_data fcrs float32 rot6d as_completed time_created time_finished storage_ok
           n_cpus pickle_paths output_path overwrite disk = (e, Some z) \<and>
           (e, Some z) = (case write_loop storage_ok
                 (initialize_zarr_store time_created output_path (full_data_shapes all_data) 1000)
                 (all_data_items all_data) of
               (Some e, z') \<Rightarrow> (Some e, Some z')
             | (None, z') \<Rightarrow> (None, Some (finish_metadata time_finished 0 1000 z'))) \<and>
           map fst (arrays z) = map fst (full_data_shapes all_data) \<and>
           map_of (attrs z) ''time_created'' = Some (AttrStr time_created)"
proof -
  let ?z0 = "initialize_zarr_store time_created output_path (full_data_shapes all_data) 1000"
  let ?its = "all_data_items all_data"
  note m = main_after_aggregation [OF agg go, of time_created time_finished storage_ok output_path]
  define z1 where "z1 = snd (write_loop storage_ok ?z0 ?its)"
  have k0: "map fst (arrays ?z0) = map fst (full_data_shapes all_data)"
    using keys_create_datasets [OF script_channels_distinct,
        of "\<lparr>attrs = [(''time_created'', AttrStr time_created)], arrays = []\<rparr>" all_data 1000]
    by (simp add: initialize_zarr_store_def)
  have k1: "map fst (arrays z1) = map fst (full_data_shapes all_data)"
    by (simp add: z1_def keys_write_loop k0)
  have a1: "attrs z1 = [(''time_created'', AttrStr time_created)]"
    by (simp add: z1_def attrs_write_loop initialize_zarr_store_attrs)
  show ?thesis
  proof (cases "fst (write_loop storage_ok ?z0 ?its)")
    case None
    then have w: "write_loop storage_ok ?z0 ?its = (None, z1)"
      by (simp add: z1_def prod_eq_iff)
    have "map_of (attrs (finish_metadata time_finished 0 1000 z1)) ''time_created''
        = Some (AttrStr time_created)"
      by (simp add: finish_metadata_attrs [OF a1])
    with k1 show ?thesis
      by (simp add: m w finish_metadata_arrays)
  next
    case (Some e)
    then have w: "write_loop storage_ok ?z0 ?its = (Some e, z1)"
      by (simp add: z1_def prod_eq_iff)
    from k1 a1 show ?thesis
      by (simp add: m w)
  qed
qed

lemma example_without_raw_fails:
  "''raw'' \<notin> set p \<Longrightarrow>
   process_pickle_file (\<lambda>p. Inr (example_episode [0, 1])) (\<lambda>rs. rs) (\<lambda>x. x) quat_to_rot_6d p n
     = Inl (ValueError ''tuple.index(x): x not in tuple'')"
  by (simp add: process_pickle_file_def example_episode_def example_observation_def
      example_frame_def np_array_def row_shape_def scalar_shape_def Let_def
      proprioceptive_to_6d_rotation_rows action_to_6d_rotation_rows extract_ee_pose_6d_rows
      drop_last_def drop_first_def len_def tuple_index_missing)

lemma example_without_raw_aggregation_fails:
  "''raw'' \<notin> set p \<Longrightarrow>
   parallel_process_pickle_files (\<lambda>fs. fs)
     (process_pickle_file (\<lambda>p. Inr (example_episode [0, 1])) (\<lambda>rs. rs) (\<lambda>x. x) quat_to_rot_6d)
     [p] n k = Inl (ValueError ''tuple.index(x): x not in tuple'')"
  by (simp add: parallel_process_pickle_files_def example_without_raw_fails)

text \<open>
  Claim C5, as amended.  When the output path exists and the overwrite flag is not set,
  the script ends with the already-exists error and the output path is left as it was,
  whatever the episodes are.  With the flag set the run proceeds to the aggregation.
  When the aggregation succeeds, the output path afterwards holds a store that does not
  depend on the old contents: it is the store a run on an absent output path produces,
  with the channels of the script and the new creation timestamp.  When the aggregation
  fails, the script ends with its error and the old contents stay as they were.
\<close>

theorem existing_output_needs_overwrite:
  "(disk \<noteq> None \<and> \<not> overwrite \<longrightarrow>
      main unpickle_data fcrs float32 rot6d as_completed time_created time_finished storage_ok
        n_cpus pickle_paths output_path overwrite disk = (Some (OutputExists output_path), disk)) \<and>
   (parallel_process_pickle_files as_completed
        (process_pickle_file unpickle_data fcrs float32 rot6d) pickle_paths (0::real) n_cpus = Inr all_data \<longrightarrow>
      (\<exists>e z. main unpickle_data fcrs float32 rot6d as_completed time_created time_finished storage_ok
                n_cpus pickle_paths output_path True (Some old) = (e, Some z) \<and>
              main unpickle_data fcrs float32 rot6d as_completed time_created time_finished storage_ok
                n_cpus pickle_paths output_path True None = (e, Some z) \<and>
              map fst (arrays z) = map fst (full_data_shapes all_data) \<and>
              map_of (attrs z) ''time_created'' = Some (AttrStr time_created))) \<and>
   (parallel_process_pickle_files as_completed
        (process_pickle_file unpickle_data fcrs float32 rot6d) pickle_paths (0::real) n_cpus = Inl err \<longrightarrow>
      main unpickle_data fcrs float32 rot6d as_completed time_created time_finished storage_ok
        n_cpus pickle_paths output_path True (Some old) = (Some err, Some old))"
proof (intro conjI impI)
  assume "parallel_process_pickle_files as_completed
        (process_pickle_file unpickle_data fcrs float32 rot6d) pickle_paths (0::real) n_cpus = Inl err"
  then show "main unpickle_data fcrs float32 rot6d as_completed time_created time_finished storage_ok
        n_cpus pickle_paths output_path True (Some old) = (Some err, Some old)"
    by (simp add: main_def)
next
  assume "disk \<noteq> None \<and> \<not> overwrite"
  then show "main unpickle_data fcrs float32 rot6d as_completed time_created time_finished storage_ok
        n_cpus pickle_paths output_path overwrite disk = (Some (OutputExists output_path), disk)"
    by (simp add: main_def)
next
  assume agg: "parallel_process_pickle_files as_completed
        (process_pickle_file unpickle_data fcrs float32 rot6d) pickle_paths (0::real) n_cpus = Inr all_data"
  have same: "main unpickle_data fcrs float32 rot6d as_completed time_created time_finished storage_ok
                n_cpus pickle_paths output_path True (Some old) =
              main unpickle_data fcrs float32 rot6d as_completed time_created time_finished storage_ok
                n_cpus pickle_paths output_path True None"
    by (simp add: main_def agg)
  from main_result_store [OF agg, of None True time_created time_finished storage_ok output_path]
  obtain e z where "main unpickle_data fcrs float32 rot6d as_completed time_created time_finished storage_ok
                n_cpus pickle_paths output_path True None = (e, Some z)"
    and "map fst (arrays z) = map fst (full_data_shapes all_data)"
    and "map_of (attrs z) ''time_created'' = Some (AttrStr time_created)"
    by auto
  with same show "\<exists>e z. main unpickle_data fcrs float32 rot6d as_completed time_created time_finished
                storage_ok n_cpus pickle_paths output_path True (Some old) = (e, Some z) \<and>
              main unpickle_data fcrs float32 rot6d as_completed time_created time_finished storage_ok
                n_cpus pickle_paths output_path True None = (e, Some z) \<and>
              map fst (arrays z) = map fst (full_data_shapes all_data) \<and>
              map_of (attrs z) ''time_created'' = Some (AttrStr time_created)"
    by auto
qed

theorem existing_output_needs_overwrite_witness:
  "main (\<lambda>p. Inr (example_episode [0, 1])) (\<lambda>rs. rs) (\<lambda>x. x) quat_to_rot_6d (\<lambda>fs. fs) ''t0'' ''t1''
      (\<lambda>name. True) 4 [example_path] [''out''] False
      (Some \<lparr>attrs = [(''time_created'', AttrStr ''old'')], arrays = []\<rparr>)
     = (Some (OutputExists [''out'']),
        Some \<lparr>attrs = [(''time_created'', AttrStr ''old'')], arrays = []\<rparr>) \<and>
   (\<exists>e z. main (\<lambda>p. Inr (example_episode [0, 1])) (\<lambda>rs. rs) (\<lambda>x. x) quat_to_rot_6d (\<lambda>fs. fs) ''t0'' ''t1''
      (\<lambda>name. True) 4 [example_path] [''out''] True
      (Some \<lparr>attrs = [(''time_created'', AttrStr ''old'')], arrays = []\<rparr>) = (e, Some z) \<and>
      map_of (attrs z) ''time_created'' = Some (AttrStr ''t0'')) \<and>
   main (\<lambda>p. Inr (example_episode [0, 1])) (\<lambda>rs. rs) (\<lambda>x. x) quat_to_rot_6d (\<lambda>fs. fs) ''t0'' ''t1''
      (\<lambda>name. True) 4 [[''/'', ''data'', ''lamp'', ''0.pkl'']] [''out''] True
      (Some \<lparr>attrs = [(''time_created'', AttrStr ''old'')], arrays = []\<rparr>)
     = (Some (ValueError ''tuple.index(x): x not in tuple''),
        Some \<lparr>attrs = [(''time_created'', AttrStr ''old'')], arrays = []\<rparr>)"
proof -
  obtain all_data where agg: "parallel_process_pickle_files (\<lambda>fs. fs)
       (process_pickle_file (\<lambda>p. Inr (example_episode [0, 1])) (\<lambda>rs. rs) (\<lambda>x. x) quat_to_rot_6d)
       [example_path] (0::real) 4 = Inr all_data"
    using example_aggregates by blast
  note a = existing_output_needs_overwrite [where disk = "Some \<lparr>attrs = [(''time_created'', AttrStr ''old'')], arrays = []\<rparr>"
      and overwrite = False and unpickle_data = "\<lambda>p. Inr (example_episode [0, 1])"
      and fcrs = "\<lambda>rs. rs" and ?float32.0 = "\<lambda>x. x" and rot6d = quat_to_rot_6d and as_completed = "\<lambda>fs. fs"
      and time_created = "''t0''" and time_finished = "''t1''" and storage_ok = "\<lambda>name. True"
      and n_cpus = 4 and pickle_paths = "[example_path]" and output_path = "[''out'']"
      and all_data = all_data and err = IndexError
      and old = "\<lparr>attrs = [(''time_created'', AttrStr ''old'')], arrays = []\<rparr>"]
  have bad: "parallel_process_pickle_files (\<lambda>fs. fs)
       (process_pickle_file (\<lambda>p. Inr (example_episode [0, 1])) (\<lambda>rs. rs) (\<lambda>x. x) quat_to_rot_6d)
       [[''/'', ''data'', ''lamp'', ''0.pkl'']] (0::real) 4
       = Inl (ValueError ''tuple.index(x): x not in tuple'')"
    by (rule example_without_raw_aggregation_fails) simp
  note b = existing_output_needs_overwrite [where disk = "Some \<lparr>attrs = [(''time_created'', AttrStr ''old'')], arrays = []\<rparr>"
      and overwrite = True and unpickle_data = "\<lambda>p. Inr (example_episode [0, 1])"
      and fcrs = "\<lambda>rs. rs" and ?float32.0 = "\<lambda>x. x" and rot6d = quat_to_rot_6d and as_completed = "\<lambda>fs. fs"
      and time_created = "''t0''" and time_finished = "''t1''" and storage_ok = "\<lambda>name. True"
      and n_cpus = 4 and pickle_paths = "[[''/'', ''data'', ''lamp'', ''0.pkl'']]"
      and output_path = "[''out'']" and all_data = all_data
      and err = "ValueError ''tuple.index(x): x not in tuple''"
      and old = "\<lparr>attrs = [(''time_created'', AttrStr ''old'')], arrays = []\<rparr>"]
  from b bad have 3: "main (\<lambda>p. Inr (example_episode [0, 1])) (\<lambda>rs. rs) (\<lambda>x. x) quat_to_rot_6d
      (\<lambda>fs. fs) ''t0'' ''t1'' (\<lambda>name. True) 4 [[''/'', ''data'', ''lamp'', ''0.pkl'']] [''out''] True
      (Some \<lparr>attrs = [(''time_created'', AttrStr ''old'')], arrays = []\<rparr>)
     = (Some (ValueError ''tuple.index(x): x not in tuple''),
        Some \<lparr>attrs = [(''time_created'', AttrStr ''old'')], arrays = []\<rparr>)"
    by blast
  from a have 1: "main (\<lambda>p. Inr (example_episode [0, 1])) (\<lambda>rs. rs) (\<lambda>x. x) quat_to_rot_6d (\<lambda>fs. fs)
      ''t0'' ''t1'' (\<lambda>name. True) 4 [example_path] [''out''] False
      (Some \<lparr>attrs = [(''time_created'', AttrStr ''old'')], arrays = []\<rparr>)
     = (Some (OutputExists [''out'']),
        Some \<lparr>attrs = [(''time_created'', AttrStr ''old'')], arrays = []\<rparr>)"
    by simp
  from a agg have 2: "\<exists>e z. main (\<lambda>p. Inr (example_episode [0, 1])) (\<lambda>rs. rs) (\<lambda>x. x) quat_to_rot_6d
      (\<lambda>fs. fs) ''t0'' ''t1'' (\<lambda>name. True) 4 [example_path] [''out''] True
      (Some \<lparr>attrs = [(''time_created'', AttrStr ''old'')], arrays = []\<rparr>) = (e, Some z) \<and>
      map_of (attrs z) ''time_created'' = Some (AttrStr ''t0'')"
    by blast
  from 1 2 3 show ?thesis by (intro conjI)
qed

text \<open>
  Claim C5 as the spec words it fails when the flag is set and a decoding fails: the
  script stops before it opens the store, and the old contents are not replaced.
\<close>

theorem existing_output_needs_overwrite_counterexample:
  "main (\<lambda>p. Inr (example_episode [0, 1])) (\<lambda>rs. rs) (\<lambda>x. x) quat_to_rot_6d (\<lambda>fs. fs) ''t0'' ''t1''
      (\<lambda>name. True) 4 [[''/'', ''data'', ''other'', ''1.pkl'']] [''out''] True
      (Some \<lparr>attrs = [(''time_created'', AttrStr ''old'')], arrays = []\<rparr>)
     = (Some (ValueError ''tuple.index(x): x not in tuple''),
        Some \<lparr>attrs = [(''time_created'', AttrStr ''old'')], arrays = []\<rparr>)"
  by (simp add: main_def example_without_raw_aggregation_fails)

section \<open>What holds of the aggregated data\<close>

text \<open>
  Whenever the aggregation succeeds, the episodes were folded in completion order, one
  entry per path: \<open>episode_ends\<close> is the list of exclusive end offsets of their lengths,
  strictly increasing; the per-episode channels follow the same order; and the last
  episode end is the total length of the state, image and action channels.  The reward
  and skill channels are absent from this list: their lengths are those of the raw lists.
\<close>

lemma end_offsets_length: "length (end_offsets s ns) = length ns"
  by (induction ns arbitrary: s) simp_all

lemma end_offsets_Nil: "end_offsets s ns = [] \<longleftrightarrow> ns = []"
  by (cases ns) simp_all

lemma end_offsets_last: "ns \<noteq> [] \<Longrightarrow> last (end_offsets s ns) = s + sum_list ns"
proof (induction ns arbitrary: s)
  case Nil
  then show ?case by simp
next
  case (Cons n ns)
  show ?case
  proof (cases "ns = []")
    case True
    then show ?thesis by simp
  next
    case False
    with Cons.IH [of "s + n"] show ?thesis
      by (simp add: end_offsets_Nil add.assoc)
  qed
qed

lemma end_offsets_lower: "\<forall>n\<in>set ns. 0 < n \<Longrightarrow> \<forall>e\<in>set (end_offsets s ns). s < e"
proof (induction ns arbitrary: s)
  case Nil
  then show ?case by simp
next
  case (Cons n ns)
  from Cons.IH [of "s + n"] Cons.prems show ?case by fastforce
qed

lemma end_offsets_increasing:
  "\<forall>n\<in>set ns. 0 < n \<Longrightarrow> sorted_wrt (<) (end_offsets s ns)"
proof (induction ns arbitrary: s)
  case Nil
  then show ?case by simp
next
  case (Cons n ns)
  from Cons.prems have "\<forall>e\<in>set (end_offsets (s + n) ns). s + n < e"
    by (intro end_offsets_lower) simp
  with Cons.IH [of "s + n"] Cons.prems show ?case by simp
qed

lemma end_offsets_nth:
  "i < length ns \<Longrightarrow> end_offsets s ns ! i = s + sum_list (take (Suc i) ns)"
proof (induction ns arbitrary: s i)
  case Nil
  then show ?case by simp
next
  case (Cons n ns)
  show ?case
  proof (cases i)
    case 0
    then show ?thesis by simp
  next
    case (Suc j)
    with Cons.prems have "j < length ns" by simp
    from Cons.IH [OF this, of "s + n"] Suc show ?thesis by (simp add: add.assoc)
  qed
qed

lemma end_offsets_append:
  "end_offsets s (ns @ [n]) = end_offsets s ns @ [s + sum_list ns + n]"
  by (induction ns arbitrary: s) (simp_all add: add.assoc)

lemma aggregate_keys_fold:
  "acc_robot_state (foldl aggregate_keys acc ds) = acc_robot_state acc @ map pd_robot_state ds \<and>
   acc_color_image1 (foldl aggregate_keys acc ds) = acc_color_image1 acc @ map pd_color_image1 ds \<and>
   acc_color_image2 (foldl aggregate_keys acc ds) = acc_color_image2 acc @ map pd_color_image2 ds \<and>
   acc_action_delta (foldl aggregate_keys acc ds) = acc_action_delta acc @ map pd_action_delta ds \<and>
   acc_action_pos (foldl aggregate_keys acc ds) = acc_action_pos acc @ map pd_action_pos ds \<and>
   acc_reward (foldl aggregate_keys acc ds) = acc_reward acc @ map pd_reward ds \<and>
   acc_skill (foldl aggregate_keys acc ds) = acc_skill acc @ map pd_skill ds \<and>
   acc_furniture (foldl aggregate_keys acc ds) = acc_furniture acc @ map pd_furniture ds \<and>
   acc_success (foldl aggregate_keys acc ds) = acc_success acc @ map pd_success ds \<and>
   acc_pickle_file (foldl aggregate_keys acc ds) = acc_pickle_file acc @ map pd_pickle_file ds"
  by (induction ds arbitrary: acc) (simp_all add: aggregate_keys_def Let_def)

lemma aggregate_keys_fold_ends:
  "acc_episode_ends (foldl aggregate_keys acc ds) =
     acc_episode_ends acc @
     end_offsets (if length (acc_episode_ends acc) > 0 then last (acc_episode_ends acc) else 0)
       (map pd_episode_length ds)"
  by (induction ds arbitrary: acc) (simp_all add: aggregate_keys_def Let_def)

lemma np_concatenate_InrD:
  "np_concatenate as = Inr a \<Longrightarrow> as \<noteq> [] \<and> len a = sum_list (map len as)"
  by (cases as)
    (auto simp: np_concatenate_def len_def [abs_def] length_concat comp_def split: if_splits)

lemma concatenate_channels_InrD:
  assumes "concatenate_channels aggregated = Inr all_data"
  shows "np_concatenate (acc_robot_state aggregated) = Inr (agg_robot_state all_data) \<and>
         np_concatenate (acc_color_image1 aggregated) = Inr (agg_color_image1 all_data) \<and>
         np_concatenate (acc_color_image2 aggregated) = Inr (agg_color_image2 all_data) \<and>
         np_concatenate (acc_action_delta aggregated) = Inr (agg_action_delta all_data) \<and>
         np_concatenate (acc_action_pos aggregated) = Inr (agg_action_pos all_data) \<and>
         np_concatenate (acc_reward aggregated) = Inr (agg_reward all_data) \<and>
         np_concatenate (acc_skill aggregated) = Inr (agg_skill all_data) \<and>
         agg_episode_ends all_data = acc_episode_ends aggregated \<and>
         agg_furniture all_data = acc_furniture aggregated \<and>
         agg_success all_data = acc_success aggregated \<and>
         agg_pickle_file all_data = acc_pickle_file aggregated"
  using assms unfolding concatenate_channels_def
  by (auto simp: and_then_eq_Inr)

lemma sum_list_cong_len:
  "\<forall>d\<in>set ds. f d = g d \<Longrightarrow> sum_list (map f ds) = sum_list (map g ds)"
  by (induction ds) simp_all

lemma aggregated_invariants:
  assumes perm: "\<forall>fs. mset (as_completed fs) = mset fs"
    and agg: "parallel_process_pickle_files as_completed
          (process_pickle_file unpickle_data fcrs float32 rot6d) pickle_paths noop_threshold num_threads
          = Inr all_data"
  shows "\<exists>ds. as_completed (map (\<lambda>path. process_pickle_file unpickle_data fcrs float32 rot6d path
                   noop_threshold) pickle_paths) = map Inr ds \<and>
           ds \<noteq> [] \<and> length ds = length pickle_paths \<and>
           agg_episode_ends all_data = end_offsets 0 (map pd_episode_length ds) \<and>
           sorted_wrt (<) (agg_episode_ends all_data) \<and>
           agg_furniture all_data = map pd_furniture ds \<and>
           agg_success all_data = map pd_success ds \<and>
           agg_pickle_file all_data = map pd_pickle_file ds \<and>
           last (agg_episode_ends all_data) = len (agg_robot_state all_data) \<and>
           last (agg_episode_ends all_data) = len (agg_color_image1 all_data) \<and>
           last (agg_episode_ends all_data) = len (agg_color_image2 all_data) \<and>
           last (agg_episode_ends all_data) = len (agg_action_delta all_data) \<and>
           last (agg_episode_ends all_data) = len (agg_action_pos all_data)"
proof -
  let ?process = "process_pickle_file unpickle_data fcrs float32 rot6d"
  let ?futures = "map (\<lambda>path. ?process path noop_threshold) pickle_paths"
  from agg obtain aggregated
    where loop: "aggregate_loop empty_accumulator (as_completed ?futures) = Inr aggregated"
      and cat: "concatenate_channels aggregated = Inr all_data"
    by (auto simp: parallel_process_pickle_files_def and_then_eq_Inr)
  from aggregate_loop_Inr [OF loop] obtain ds
    where ds: "as_completed ?futures = map Inr ds"
      and acc: "aggregated = foldl aggregate_keys empty_accumulator ds"
    by blast
  have "length (as_completed ?futures) = length ?futures"
    using perm by (metis size_mset)
  then have n: "length ds = length pickle_paths"
    by (simp add: ds)
  have set_eq: "set (as_completed ?futures) = set ?futures"
    using perm by (metis set_mset_mset)
  have each: "0 < pd_episode_length d \<and>
        len (pd_robot_state d) = pd_episode_length d \<and>
        len (pd_color_image1 d) = pd_episode_length d \<and>
        len (pd_color_image2 d) = pd_episode_length d \<and>
        len (pd_action_delta d) = pd_episode_length d \<and>
        len (pd_action_pos d) = pd_episode_length d" if "d \<in> set ds" for d
  proof -
    from that have "Inr d \<in> set (as_completed ?futures)" by (simp add: ds)
    with set_eq obtain path where "?process path noop_threshold = Inr d" by auto
    from process_pickle_file_InrD [OF this] show ?thesis by blast
  qed
  note f = aggregate_keys_fold [of empty_accumulator ds, folded acc]
  have ends: "acc_episode_ends aggregated = end_offsets 0 (map pd_episode_length ds)"
    using aggregate_keys_fold_ends [of empty_accumulator ds]
    by (simp add: acc empty_accumulator_def)
  note c = concatenate_channels_InrD [OF cat]
  have ne: "ds \<noteq> []"
  proof
    assume "ds = []"
    with f have "acc_robot_state aggregated = []" by (simp add: empty_accumulator_def)
    with c show False by (simp add: np_concatenate_def)
  qed
  have total: "sum_list (map pd_episode_length ds) = last (agg_episode_ends all_data)"
    using c ends ne by (simp add: end_offsets_last)
  have inc: "sorted_wrt (<) (agg_episode_ends all_data)"
    using c ends each by (simp add: end_offsets_increasing)
  have l1: "len (agg_robot_state all_data) = sum_list (map pd_episode_length ds)"
  proof -
    have "len (agg_robot_state all_data) = sum_list (map len (map pd_robot_state ds))"
      using c f np_concatenate_InrD [of "acc_robot_state aggregated" "agg_robot_state all_data"]
      by (simp add: empty_accumulator_def)
    also have "\<dots> = sum_list (map pd_episode_length ds)"
      unfolding map_map comp_def using each by (intro sum_list_cong_len) simp
    finally show ?thesis .
  qed
  have l2: "len (agg_color_image1 all_data) = sum_list (map pd_episode_length ds)"
  proof -
    have "len (agg_color_image1 all_data) = sum_list (map len (map pd_color_image1 ds))"
      using c f np_concatenate_InrD [of "acc_color_image1 aggregated" "agg_color_image1 all_data"]
      by (simp add: empty_accumulator_def)
    also have "\<dots> = sum_list (map pd_episode_length ds)"
      unfolding map_map comp_def using each by (intro sum_list_cong_len) simp
    finally show ?thesis .
  qed
  have l3: "len (agg_color_image2 all_data) = sum_list (map pd_episode_length ds)"
  proof -
    have "len (agg_color_image2 all_data) = sum_list (map len (map pd_color_image2 ds))"
      using c f np_concatenate_InrD [of "acc_color_image2 aggregated" "agg_color_image2 all_data"]
      by (simp add: empty_accumulator_def)
    also have "\<dots> = sum_list (map pd_episode_length ds)"
      unfolding map_map comp_def using each by (intro sum_list_cong_len) simp
    finally show ?thesis .
  qed
  have l4: "len (agg_action_delta all_data) = sum_list (map pd_episode_length ds)"
  proof -
    have "len (agg_action_delta all_data) = sum_list (map len (map pd_action_delta ds))"
      using c f np_concatenate_InrD [of "acc_action_delta aggregated" "agg_action_delta all_data"]
      by (simp add: empty_accumulator_def)
    also have "\<dots> = sum_list (map pd_episode_length ds)"
      unfolding map_map comp_def using each by (intro sum_list_cong_len) simp
    finally show ?thesis .
  qed
  have l5: "len (agg_action_pos all_data) = sum_list (map pd_episode_length ds)"
  proof -
    have "len (agg_action_pos all_data) = sum_list (map len (map pd_action_pos ds))"
      using c f np_concatenate_InrD [of "acc_action_pos aggregated" "agg_action_pos all_data"]
      by (simp add: empty_accumulator_def)
    also have "\<dots> = sum_list (map pd_episode_length ds)"
      unfolding map_map comp_def using each by (intro sum_list_cong_len) simp
    finally show ?thesis .
  qed
  have meta: "agg_furniture all_data = map pd_furniture ds"
    "agg_success all_data = map pd_success ds"
    "agg_pickle_file all_data = map pd_pickle_file ds"
    using c f by (simp_all add: empty_accumulator_def)
  have e: "agg_episode_ends all_data = end_offsets 0 (map pd_episode_length ds)"
    using c ends by simp
  show ?thesis
    using ds ne n e inc meta l1 l2 l3 l4 l5 total
    by (intro exI [of _ ds] conjI) simp_all
qed

end
